theory Spec2Isabelle
  imports Complex_Main "HOL-Library.Multiset" "HOL-Library.Sublist"
begin

section \<open>Data model\<close>

text \<open>
  Go strings are byte sequences: \<open>string\<close> (a \<open>char list\<close>, one \<open>char\<close> per byte), and
  \<open>len\<close> is \<open>length\<close>. Go's \<open>float64\<close> is idealised as \<open>real\<close>: rounding, infinities
  and NaN are not modelled. Go's \<open>int\<close> is \<open>int\<close> where it can be negative (\<open>topK\<close>) and
  \<open>nat\<close> for counters that only grow from zero. Several structs of the source share
  field names, so every field carries a short prefix of its struct.
\<close>

type_synonym vector = "real list"

text \<open>\<open>embeddings.Chunk\<close>\<close>

record Chunk =
  ID :: string
  ChapterID :: string
  ChapterName :: string
  Section :: string
  Content :: string
  Embedding :: vector
  Locale :: string

text \<open>\<open>embeddings.SemanticResult\<close>\<close>

record SemanticResult =
  sem_ChapterID :: string
  sem_ChapterName :: string
  sem_Section :: string
  sem_Content :: string
  sem_Score :: real
  sem_Locale :: string

text \<open>\<open>book.Section\<close> and \<open>book.Chapter\<close>\<close>

record Section =
  sec_Name :: string
  sec_TagID :: string

record Chapter =
  ch_ID :: string
  ch_Order :: int
  ch_Name :: string
  ch_Locale :: string
  ch_TitleList :: "Section list"
  ch_Content :: string
  ch_FilePath :: string

text \<open>\<open>book.SearchResult\<close> and the parser's \<open>frontmatter\<close>\<close>

record SearchResult =
  res_ChapterID :: string
  res_ChapterName :: string
  res_Section :: string
  res_Snippet :: string
  res_LineNumber :: nat
  res_Relevance :: real
  res_Locale :: string

record frontmatter =
  fm_ID :: string
  fm_Order :: int
  fm_Name :: string
  fm_TitleList :: "Section list"

text \<open>
  Every error return and every run-time panic of the source is a value of \<open>error\<close>.
  The source builds its errors with \<open>fmt.Errorf\<close>; each constructor stands for one
  message format and carries the formatted argument.
\<close>

datatype error =
    NotIndexedError          \<comment> \<open>"index not built, call IndexChunks first"\<close>
  | EmbeddingsError error    \<comment> \<open>"error generating embeddings: %w"\<close>
  | ProviderError string     \<comment> \<open>whatever the embedding client returns\<close>
  | NoFrontmatter            \<comment> \<open>"no frontmatter found"\<close>
  | FrontmatterNotClosed     \<comment> \<open>"frontmatter not closed"\<close>
  | ReadError string         \<comment> \<open>a failed directory or file read\<close>
  | ParseError string error  \<comment> \<open>"error parsing frontmatter in %s: %w"\<close>
  | ChapterNotFound string   \<comment> \<open>"chapter not found: %s"\<close>
  | SectionNotFound string   \<comment> \<open>"section not found: %s"\<close>
  | NotAvailable             \<comment> \<open>"Semantic search not available. ..."\<close>
  | Panic string             \<comment> \<open>a run-time panic (slice bounds, index out of range)\<close>

section \<open>The Go library functions the program calls\<close>

text \<open>
  The functions of \<open>strings\<close>, \<open>bufio\<close> and \<open>regexp\<close> that the source calls, on byte
  strings. \<open>NL\<close> is the line feed.
\<close>

abbreviation NL :: char where
  "NL \<equiv> CHR 0x0A"

definition byte :: "char \<Rightarrow> nat" where
  "byte c = of_char c"

subsection \<open>White space\<close>

text \<open>
  The white space of \<open>strings.TrimSpace\<close> and \<open>strings.Fields\<close> is Unicode's: the six
  ASCII characters tab, line feed, vertical tab, form feed, carriage return and space,
  and the code points U+0085, U+00A0, U+1680, U+2000 to U+200A, U+2028, U+2029, U+202F,
  U+205F and U+3000, here in their UTF-8 encodings.
\<close>

definition asciiSpace :: "char \<Rightarrow> bool" where
  "asciiSpace c = (c \<in> set [CHR 0x09, CHR 0x0A, CHR 0x0B, CHR 0x0C, CHR 0x0D, CHR 0x20])"

definition unicodeSpaces :: "string list" where
  "unicodeSpaces =
     [[CHR 0xC2, CHR 0x85], [CHR 0xC2, CHR 0xA0], [CHR 0xE1, CHR 0x9A, CHR 0x80],
      [CHR 0xE2, CHR 0x80, CHR 0x80], [CHR 0xE2, CHR 0x80, CHR 0x81],
      [CHR 0xE2, CHR 0x80, CHR 0x82], [CHR 0xE2, CHR 0x80, CHR 0x83],
      [CHR 0xE2, CHR 0x80, CHR 0x84], [CHR 0xE2, CHR 0x80, CHR 0x85],
      [CHR 0xE2, CHR 0x80, CHR 0x86], [CHR 0xE2, CHR 0x80, CHR 0x87],
      [CHR 0xE2, CHR 0x80, CHR 0x88], [CHR 0xE2, CHR 0x80, CHR 0x89],
      [CHR 0xE2, CHR 0x80, CHR 0x8A], [CHR 0xE2, CHR 0x80, CHR 0xA8],
      [CHR 0xE2, CHR 0x80, CHR 0xA9], [CHR 0xE2, CHR 0x80, CHR 0xAF],
      [CHR 0xE2, CHR 0x81, CHR 0x9F], [CHR 0xE3, CHR 0x80, CHR 0x80]]"

text \<open>The number of bytes of the white-space character a string starts (ends) with, or 0.\<close>

definition leadingSpace :: "string \<Rightarrow> nat" where
  "leadingSpace s =
     (case s of
        [] \<Rightarrow> 0
      | c # r \<Rightarrow>
          if asciiSpace c then 1
          else (case find (\<lambda>p. prefix p s) unicodeSpaces of Some p \<Rightarrow> length p | None \<Rightarrow> 0))"

definition trailingSpace :: "string \<Rightarrow> nat" where
  "trailingSpace s =
     (if s = [] then 0
      else if asciiSpace (last s) then 1
      else (case find (\<lambda>p. suffix p s) unicodeSpaces of Some p \<Rightarrow> length p | None \<Rightarrow> 0))"

lemma find_unicodeSpaces_length:
  "find P unicodeSpaces = Some p \<Longrightarrow> 0 < length p"
  by (auto simp: unicodeSpaces_def split: if_splits)

lemma leadingSpace_le: "leadingSpace s \<le> length s"
  by (auto simp: leadingSpace_def find_Some_iff
      split: list.splits option.splits dest: prefix_length_le)

lemma trailingSpace_le: "trailingSpace s \<le> length s"
  by (cases s rule: rev_cases)
     (auto simp: trailingSpace_def find_Some_iff split: option.splits dest: suffix_length_le)

function trimLeft :: "string \<Rightarrow> string" where
  "trimLeft s = (if leadingSpace s = 0 then s else trimLeft (drop (leadingSpace s) s))"
  by pat_completeness auto
termination
proof (relation "measure length")
  fix s :: string
  assume "leadingSpace s \<noteq> 0"
  moreover have "s \<noteq> []" using calculation by (auto simp: leadingSpace_def)
  ultimately show "(drop (leadingSpace s) s, s) \<in> measure length" by simp
qed simp

function trimRight :: "string \<Rightarrow> string" where
  "trimRight s =
     (if trailingSpace s = 0 then s else trimRight (take (length s - trailingSpace s) s))"
  by pat_completeness auto
termination
proof (relation "measure length")
  fix s :: string
  assume "trailingSpace s \<noteq> 0"
  moreover have "s \<noteq> []" using calculation by (auto simp: trailingSpace_def)
  ultimately show "(take (length s - trailingSpace s) s, s) \<in> measure length" by simp
qed simp

declare trimLeft.simps [simp del] trimRight.simps [simp del]

text \<open>\<open>strings.TrimSpace\<close>\<close>

definition TrimSpace :: "string \<Rightarrow> string" where
  "TrimSpace s = trimRight (trimLeft s)"

text \<open>
  \<open>strings.Fields\<close>: the maximal runs of bytes between white-space characters; \<open>cur\<close>
  is the current run, last byte first.
\<close>

function fieldsFrom :: "string \<Rightarrow> string \<Rightarrow> string list" where
  "fieldsFrom cur [] = (if cur = [] then [] else [rev cur])"
| "fieldsFrom cur (c # s) =
     (if leadingSpace (c # s) = 0 then fieldsFrom (c # cur) s
      else (if cur = [] then [] else [rev cur])
           @ fieldsFrom [] (drop (leadingSpace (c # s)) (c # s)))"
  by pat_completeness auto
termination
  by (relation "measure (\<lambda>(cur, s). length s)") auto

definition Fields :: "string \<Rightarrow> string list" where
  "Fields s = fieldsFrom [] s"

subsection \<open>Searching and splitting\<close>

text \<open>\<open>strings.Index\<close>, with \<open>None\<close> for -1.\<close>

fun Index :: "string \<Rightarrow> string \<Rightarrow> nat option" where
  "Index [] sep = (if sep = [] then Some 0 else None)"
| "Index (c # s) sep =
     (if prefix sep (c # s) then Some 0 else map_option Suc (Index s sep))"

definition Contains :: "string \<Rightarrow> string \<Rightarrow> bool" where
  "Contains s substr = (Index s substr \<noteq> None)"

lemma Index_Some_le: "Index s sep = Some i \<Longrightarrow> i + length sep \<le> length s"
  by (induction s arbitrary: i) (auto simp: prefix_length_le split: if_splits dest: prefix_length_le)

text \<open>
  \<open>strings.Split\<close> for a non-empty separator (the only use the program makes of it; with
  an empty separator Go splits after every UTF-8 sequence, which is not modelled: the
  string is returned whole).
\<close>

function Split :: "string \<Rightarrow> string \<Rightarrow> string list" where
  "Split s sep =
     (if sep = [] then [s]
      else case Index s sep of
             None \<Rightarrow> [s]
           | Some i \<Rightarrow> take i s # Split (drop (i + length sep) s) sep)"
  by pat_completeness auto
termination
proof (relation "measure (\<lambda>(s, sep). length s)")
  fix s sep :: string and i
  assume "sep \<noteq> []" "Index s sep = Some i"
  then show "((drop (i + length sep) s, sep), (s, sep)) \<in> measure (\<lambda>(s, sep). length s)"
    using Index_Some_le [of s sep i] by (cases sep) auto
qed simp

declare Split.simps [simp del]

text \<open>
  \<open>bufio.Scanner\<close> with the default split function \<open>ScanLines\<close>: the text is cut at
  every line feed, a final line without line feed counts when it is not empty, and one
  trailing carriage return is dropped from each line (\<open>rawLines\<close> cuts the lines, with
  the current line \<open>cur\<close> last byte first). A line of 65536 bytes or more
  does not fit the scanner's buffer (\<open>MaxScanTokenSize\<close>): \<open>Scan\<close> returns false there
  and the loop ends; the program does not look at the scanner's error.
\<close>

fun rawLines :: "string \<Rightarrow> string \<Rightarrow> string list" where
  "rawLines cur [] = (if cur = [] then [] else [rev cur])"
| "rawLines cur (c # s) = (if c = NL then rev cur # rawLines [] s else rawLines (c # cur) s)"

definition dropCR :: "string \<Rightarrow> string" where
  "dropCR l = (if l \<noteq> [] \<and> last l = CHR 0x0D then butlast l else l)"

definition MaxScanTokenSize :: nat where
  "MaxScanTokenSize = 65536"

definition scanLines :: "string \<Rightarrow> string list" where
  "scanLines s = map dropCR (takeWhile (\<lambda>l. length l < MaxScanTokenSize) (rawLines [] s))"

subsection \<open>The heading patterns\<close>

text \<open>The class \<open>\s\<close> of \<open>regexp\<close>: tab, line feed, form feed, carriage return, space.\<close>

definition reSpace :: "char \<Rightarrow> bool" where
  "reSpace c = (c \<in> set [CHR 0x09, CHR 0x0A, CHR 0x0C, CHR 0x0D, CHR 0x20])"

text \<open>
  \<open>regexp.MustCompile(`^#{1,6}\s+(.+)$`).FindStringSubmatch(line)\<close>: the text of the
  capture group, or \<open>None\<close> when the line does not match. The match is the one a
  backtracking search finds first: one to six \<open>#\<close> (a seventh \<open>#\<close> is no white space, so
  no match), the longest run of white space that still leaves the group one character,
  and the rest up to the end of the text, which must hold no line feed.
\<close>

definition headerPattern :: "string \<Rightarrow> string option" where
  "headerPattern line =
     (let n = length (takeWhile (\<lambda>c. c = CHR ''#'') line);
          ws = takeWhile reSpace (drop n line);
          r = dropWhile reSpace (drop n line)
      in if n < 1 \<or> 6 < n \<or> ws = [] then None
         else if r \<noteq> [] then (if NL \<in> set r then None else Some r)
         else if 2 \<le> length ws \<and> last ws \<noteq> NL then Some [last ws]
         else None)"

text \<open>
  \<open>regexp.MustCompile(`(?m)^##\s+(.+)$`)\<close> tried at the start of a line: the capture
  group and the length of the match. The white space after \<open>##\<close> may span line feeds;
  the group runs to the end of its line. When only white space follows \<open>##\<close> up to the
  end of the text, the group is the last white-space character that is no line feed and
  is not the first one.
\<close>

definition sectionPatternAt :: "string \<Rightarrow> (string \<times> nat) option" where
  "sectionPatternAt s =
     (let ws = takeWhile reSpace (drop 2 s);
          r = dropWhile reSpace (drop 2 s);
          back = takeWhile (\<lambda>c. c = NL) (rev (tl ws))
      in if \<not> prefix ''##'' s \<or> ws = [] then None
         else if r \<noteq> [] then
           Some (takeWhile (\<lambda>c. c \<noteq> NL) r, 2 + length ws + length (takeWhile (\<lambda>c. c \<noteq> NL) r))
         else if length back < length (tl ws) then
           Some ([rev (tl ws) ! length back], 2 + length ws - length back)
         else None)"

lemma sectionPatternAt_pos: "sectionPatternAt s = Some (h, n) \<Longrightarrow> 0 < n \<and> n \<le> length s"
proof -
  assume a: "sectionPatternAt s = Some (h, n)"
  define t where "t = drop 2 s"
  have p: "prefix ''##'' s" using a by (auto simp: sectionPatternAt_def Let_def split: if_splits)
  then have ls: "length s = 2 + length t" by (auto simp: t_def prefix_def)
  have lt: "length (takeWhile reSpace t) + length (dropWhile reSpace t) = length t"
    by (metis length_append takeWhile_dropWhile_id)
  have lr: "length (takeWhile (\<lambda>c. c \<noteq> NL) (dropWhile reSpace t)) \<le> length (dropWhile reSpace t)"
    by (rule length_takeWhile_le)
  show ?thesis
    using a lt lr ls unfolding sectionPatternAt_def Let_def t_def [symmetric]
    by (auto split: if_splits)
qed

text \<open>
  \<open>headerPattern.Split(content, -1)\<close> and \<open>headerPattern.FindAllStringSubmatch(content,
  -1)\<close> for the pattern \<open>(?m)^##\s+(.+)$\<close>, in one pass: the texts between the matches
  and the capture groups of the matches. \<open>atStart\<close> says that the position is the start
  of a line, \<open>cur\<close> is the text since the last match, last byte first.
\<close>

function splitSections :: "bool \<Rightarrow> string \<Rightarrow> string \<Rightarrow> string list \<times> string list" where
  "splitSections atStart cur [] = ([rev cur], [])"
| "splitSections atStart cur (c # s) =
     (case (if atStart then sectionPatternAt (c # s) else None) of
        Some (h, n) \<Rightarrow>
          (case splitSections False [] (drop n (c # s)) of
             (sections, headers) \<Rightarrow> (rev cur # sections, h # headers))
      | None \<Rightarrow> splitSections (c = NL) (c # cur) s)"
  by pat_completeness auto
termination
proof (relation "measure (\<lambda>(atStart, cur, s). length s)")
  fix atStart :: bool and cur s :: string and c x2 h n
  assume "(if atStart then sectionPatternAt (c # s) else None) = Some x2" "(h, n) = x2"
  then have "sectionPatternAt (c # s) = Some (h, n)" by (auto split: if_splits)
  from sectionPatternAt_pos [OF this]
  show "((False, [], drop n (c # s)), (atStart, cur, c # s))
          \<in> measure (\<lambda>(atStart, cur, s). length s)"
    by simp
qed auto

subsection \<open>UTF-8 sequences and letter case\<close>

text \<open>
  \<open>strings.ToLower\<close> and the character classes of \<open>regexp\<close> read a string as UTF-8.
  \<open>runeLen\<close> is the width \<open>utf8.DecodeRuneInString\<close> reports for the start of a string
  that is not empty: the length of a well-formed sequence, and 1 for a byte that starts
  none (Go reads it as the character U+FFFD, \<open>RuneError\<close>, of width 1).
\<close>

definition cont :: "char \<Rightarrow> bool" where
  "cont c = (0x80 \<le> byte c \<and> byte c \<le> 0xBF)"

text \<open>For a leading byte: the length of its sequence and the range of the second byte.\<close>

definition leadInfo :: "char \<Rightarrow> (nat \<times> nat \<times> nat) option" where
  "leadInfo c =
     (let b = byte c
      in if 0xC2 \<le> b \<and> b \<le> 0xDF then Some (2, 0x80, 0xBF)
         else if b = 0xE0 then Some (3, 0xA0, 0xBF)
         else if (0xE1 \<le> b \<and> b \<le> 0xEC) \<or> b = 0xEE \<or> b = 0xEF then Some (3, 0x80, 0xBF)
         else if b = 0xED then Some (3, 0x80, 0x9F)
         else if b = 0xF0 then Some (4, 0x90, 0xBF)
         else if 0xF1 \<le> b \<and> b \<le> 0xF3 then Some (4, 0x80, 0xBF)
         else if b = 0xF4 then Some (4, 0x80, 0x8F)
         else None)"

definition runeLen :: "string \<Rightarrow> nat" where
  "runeLen s =
     (case leadInfo (hd s) of
        None \<Rightarrow> 1
      | Some (sz, lo, hi) \<Rightarrow>
          if length s < sz then 1
          else if \<not> (lo \<le> byte (s ! 1) \<and> byte (s ! 1) \<le> hi) then 1
          else if sz = 2 then 2
          else if \<not> cont (s ! 2) then 1
          else if sz = 3 then 3
          else if \<not> cont (s ! 3) then 1
          else 4)"

lemma runeLen_pos: "0 < runeLen s"
  by (auto simp: runeLen_def split: option.splits)

text \<open>The string cut into its UTF-8 sequences, a byte that starts none on its own.\<close>

function runes :: "string \<Rightarrow> string list" where
  "runes [] = []"
| "runes (c # s) = take (runeLen (c # s)) (c # s) # runes (drop (runeLen (c # s)) (c # s))"
  by pat_completeness auto
termination
  by (relation "measure length") (use runeLen_pos in \<open>auto simp: Suc_diff_le\<close>)

text \<open>
  The tables of Go's package \<open>unicode\<close> are no part of the program: they are the
  parameter \<open>U\<close> of every function that reads them, and only for characters outside
  ASCII, each given as its UTF-8 sequence. \<open>ToLowerRune\<close> is \<open>unicode.ToLower\<close>,
  \<open>IsLetter\<close> and \<open>IsNumber\<close> are the classes \<open>\p{L}\<close> and \<open>\p{N}\<close>.
\<close>

record UnicodeTables =
  ToLowerRune :: "string \<Rightarrow> string"
  IsLetter :: "string \<Rightarrow> bool"
  IsNumber :: "string \<Rightarrow> bool"

definition upperChars :: string where
  "upperChars = ''ABCDEFGHIJKLMNOPQRSTUVWXYZ''"

definition lowerChars :: string where
  "lowerChars = ''abcdefghijklmnopqrstuvwxyz''"

definition digitChars :: string where
  "digitChars = ''0123456789''"

definition asciiLower :: "char \<Rightarrow> char" where
  "asciiLower c = (case map_of (zip upperChars lowerChars) c of Some l \<Rightarrow> l | None \<Rightarrow> c)"

text \<open>The UTF-8 sequence of U+FFFD.\<close>

definition runeError :: string where
  "runeError = [CHR 0xEF, CHR 0xBF, CHR 0xBD]"

definition lowerRune :: "UnicodeTables \<Rightarrow> string \<Rightarrow> string" where
  "lowerRune U r =
     (if length r = 1
      then (if byte (hd r) < 0x80 then [asciiLower (hd r)] else runeError)
      else ToLowerRune U r)"

text \<open>
  \<open>strings.ToLower\<close>: every character mapped to lower case; a byte that starts no
  UTF-8 sequence comes out as U+FFFD.
\<close>

definition ToLower :: "UnicodeTables \<Rightarrow> string \<Rightarrow> string" where
  "ToLower U s = concat (map (lowerRune U) (runes s))"

text \<open>\<open>strings.Trim(s, "-")\<close>\<close>

definition trimHyphens :: "string \<Rightarrow> string" where
  "trimHyphens s =
     rev (dropWhile (\<lambda>c. c = CHR ''-'') (rev (dropWhile (\<lambda>c. c = CHR ''-'') s)))"

text \<open>\<open>strconv.Atoi\<close> on a string of decimal digits, before any range check.\<close>

definition digitVal :: "char \<Rightarrow> nat" where
  "digitVal c = length (takeWhile (\<lambda>x. x \<noteq> c) ''0123456789'')"

definition atoi :: "string \<Rightarrow> nat" where
  "atoi s = foldl (\<lambda>a c. 10 * a + digitVal c) 0 s"

subsection \<open>Facts about the library functions\<close>

text \<open>A plain character: ASCII and no white space.\<close>

definition plain :: "char \<Rightarrow> bool" where
  "plain c = (byte c < 128 \<and> \<not> asciiSpace c)"

lemma unicodeSpaces_bytes:
  "p \<in> set unicodeSpaces \<Longrightarrow> p \<noteq> [] \<and> \<not> plain (hd p) \<and> \<not> plain (last p)"
  by (auto simp: unicodeSpaces_def plain_def byte_def)

lemma leadingSpace_plain: "plain c \<Longrightarrow> leadingSpace (c # s) = 0"
proof -
  assume c: "plain c"
  have "\<not> prefix p (c # s)" if "p \<in> set unicodeSpaces" for p
    using unicodeSpaces_bytes [OF that] c by (cases p) auto
  then have "find (\<lambda>p. prefix p (c # s)) unicodeSpaces = None"
    by (simp add: find_None_iff)
  with c show ?thesis by (simp add: leadingSpace_def plain_def)
qed

lemma trailingSpace_plain: "plain c \<Longrightarrow> trailingSpace (s @ [c]) = 0"
proof -
  assume c: "plain c"
  have "\<not> suffix p (s @ [c])" if "p \<in> set unicodeSpaces" for p
    using unicodeSpaces_bytes [OF that] c by (cases p rule: rev_cases) auto
  then have "find (\<lambda>p. suffix p (s @ [c])) unicodeSpaces = None"
    by (simp add: find_None_iff)
  with c show ?thesis by (simp add: trailingSpace_def plain_def)
qed

lemma trimLeft_plain: "plain c \<Longrightarrow> trimLeft (c # s) = c # s"
  by (subst trimLeft.simps) (simp add: leadingSpace_plain)

lemma trimRight_plain: "plain c \<Longrightarrow> trimRight (s @ [c]) = s @ [c]"
  by (subst trimRight.simps) (simp add: trailingSpace_plain)

lemma trimLeft_asciiSpace: "asciiSpace c \<Longrightarrow> trimLeft (c # s) = trimLeft s"
  by (subst trimLeft.simps) (simp add: leadingSpace_def)

lemma trimRight_asciiSpace: "asciiSpace c \<Longrightarrow> trimRight (s @ [c]) = trimRight s"
  by (subst trimRight.simps) (simp add: trailingSpace_def)

lemma TrimSpace_plain:
  "s \<noteq> [] \<Longrightarrow> plain (hd s) \<Longrightarrow> plain (last s) \<Longrightarrow> TrimSpace s = s"
proof -
  assume a: "s \<noteq> []" "plain (hd s)" "plain (last s)"
  then obtain c r where "s = c # r" by (cases s) auto
  with a have l: "trimLeft s = s" by (simp add: trimLeft_plain)
  from a obtain r' c' where "s = r' @ [c']" by (cases s rule: rev_cases) auto
  with a have "trimRight s = s" by (simp add: trimRight_plain)
  with l show ?thesis by (simp add: TrimSpace_def)
qed

lemma splitSections_no_hash:
  "CHR ''#'' \<notin> set s \<Longrightarrow> splitSections a cur s = ([rev cur @ s], [])"
proof (induction s arbitrary: a cur)
  case Nil then show ?case by simp
next
  case (Cons c s)
  then have "sectionPatternAt (c # s) = None"
    by (simp add: sectionPatternAt_def)
  with Cons show ?case by simp
qed

lemma Index_NLNL:
  "NL \<notin> set s \<Longrightarrow> Index (s @ NL # NL # t) [NL, NL] = Some (length s)"
  by (induction s) auto

lemma Index_NLNL_None:
  "NL \<notin> set s \<Longrightarrow> Index s [NL, NL] = None"
  by (induction s) auto

lemma Split_two_paragraphs:
  assumes "NL \<notin> set s" "NL \<notin> set t"
  shows "Split (s @ NL # NL # t) [NL, NL] = [s, t]"
proof -
  have "Split t [NL, NL] = [t]"
    using assms(2) by (subst Split.simps) (simp add: Index_NLNL_None)
  then show ?thesis
    using assms(1) by (subst Split.simps) (simp add: Index_NLNL)
qed

section \<open>Vector store\<close>

text \<open>\<open>VectorStore\<close>: the slice of chunks; the lock is not modelled.\<close>

record VectorStore =
  chunks :: "Chunk list"

definition NewVectorStore :: VectorStore where
  "NewVectorStore = \<lparr>chunks = []\<rparr>"

definition AddBatch :: "VectorStore \<Rightarrow> Chunk list \<Rightarrow> VectorStore" where
  "AddBatch v cs = v\<lparr>chunks := chunks v @ cs\<rparr>"

definition Count :: "VectorStore \<Rightarrow> nat" where
  "Count v = length (chunks v)"

definition cosineSimilarity :: "vector \<Rightarrow> vector \<Rightarrow> real" where
  "cosineSimilarity a b =
     (if length a \<noteq> length b then 0
      else
        let dotProduct = (\<Sum>(x, y)\<leftarrow>zip a b. x * y);
            normA = (\<Sum>x\<leftarrow>a. x * x);
            normB = (\<Sum>y\<leftarrow>b. y * y)
        in if normA = 0 \<or> normB = 0 then 0
           else dotProduct / (sqrt normA * sqrt normB))"

text \<open>The local struct \<open>scored\<close> of \<open>VectorStore.Search\<close> is a pair of chunk and score.\<close>

type_synonym scored = "Chunk \<times> real"

definition swap :: "nat \<Rightarrow> nat \<Rightarrow> 'a list \<Rightarrow> 'a list" where
  "swap i j xs = xs[i := xs ! j, j := xs ! i]"

text \<open>
  The two nested loops of \<open>Search\<close> that order the results: for every \<open>i\<close>, every later
  \<open>j\<close> whose score is greater is exchanged with position \<open>i\<close>. The length of the slice
  does not change, so both index ranges are fixed when the loops start.
\<close>

definition sortInner :: "nat \<Rightarrow> scored list \<Rightarrow> scored list" where
  "sortInner i rs =
     fold (\<lambda>j r. if snd (r ! j) > snd (r ! i) then swap i j r else r)
       [Suc i ..< length rs] rs"

definition sortScored :: "scored list \<Rightarrow> scored list" where
  "sortScored rs = fold sortInner [0 ..< length rs] rs"

definition toSemanticResult :: "scored \<Rightarrow> SemanticResult" where
  "toSemanticResult r =
     \<lparr>sem_ChapterID = ChapterID (fst r), sem_ChapterName = ChapterName (fst r),
      sem_Section = Section (fst r), sem_Content = Content (fst r),
      sem_Score = snd r, sem_Locale = Locale (fst r)\<rparr>"

text \<open>
  \<open>VectorStore.Search\<close>. The slice expression \<open>results[:topK]\<close> is evaluated whenever
  \<open>len(results) > topK\<close>; with a negative \<open>topK\<close> that is always, and the expression
  panics (slice bounds out of range).
\<close>

definition matching :: "VectorStore \<Rightarrow> vector \<Rightarrow> string \<Rightarrow> scored list" where
  "matching v queryEmbedding locale =
     map (\<lambda>c. (c, cosineSimilarity queryEmbedding (Embedding c)))
       (filter (\<lambda>c. \<not> (locale \<noteq> [] \<and> Locale c \<noteq> locale)) (chunks v))"

definition VectorStore_Search ::
  "VectorStore \<Rightarrow> vector \<Rightarrow> string \<Rightarrow> int \<Rightarrow> error + SemanticResult list" where
  "VectorStore_Search v queryEmbedding locale topK =
     (let results = sortScored (matching v queryEmbedding locale)
      in if int (length results) > topK
         then (if topK < 0 then Inl (Panic ''slice bounds out of range'')
               else Inr (map toSemanticResult (take (nat topK) results)))
         else Inr (map toSemanticResult results))"

section \<open>Semantic engine\<close>

text \<open>
  \<open>EmbeddingClient\<close> is an interface over a remote service. A client is modelled by
  its two methods, each a function of the client's state \<open>'c\<close> (everything that decides
  the service's next answer) returning the answer and the next state.
\<close>

record 'c EmbeddingClient =
  Embed :: "'c \<Rightarrow> string \<Rightarrow> (error + vector) \<times> 'c"
  EmbedBatch :: "'c \<Rightarrow> string list \<Rightarrow> (error + vector list) \<times> 'c"

record SemanticEngine =
  store :: VectorStore
  isIndexed :: bool

definition NewSemanticEngine :: SemanticEngine where
  "NewSemanticEngine = \<lparr>store = NewVectorStore, isIndexed = False\<rparr>"

definition batchSize :: nat where
  "batchSize = 100"

text \<open>
  The loop \<open>for j, emb := range embeddings { chunks[i+j].Embedding = emb }\<close>: an index
  past the end of \<open>chunks\<close> panics.
\<close>

fun writeBack :: "nat \<Rightarrow> vector list \<Rightarrow> Chunk list \<Rightarrow> error + Chunk list" where
  "writeBack k [] cs = Inr cs"
| "writeBack k (emb # embs) cs =
     (if k < length cs then writeBack (Suc k) embs (cs[k := (cs ! k)\<lparr>Embedding := emb\<rparr>])
      else Inl (Panic ''index out of range''))"

text \<open>
  The batch loop of \<open>IndexChunks\<close>, from offset \<open>i\<close>: the result is the error (if any),
  the client's state and the caller's slice of chunks, which the loop updates in place.
\<close>

function indexLoop ::
  "'c EmbeddingClient \<Rightarrow> 'c \<Rightarrow> string list \<Rightarrow> nat \<Rightarrow> Chunk list \<Rightarrow>
     error option \<times> 'c \<times> Chunk list" where
  "indexLoop cl s texts i cs =
     (if i < length texts then
        (let e = (if i + batchSize > length texts then length texts else i + batchSize)
         in case EmbedBatch cl s (take (e - i) (drop i texts)) of
              (Inl err, s') \<Rightarrow> (Some (EmbeddingsError err), s', cs)
            | (Inr embeddings, s') \<Rightarrow>
                (case writeBack i embeddings cs of
                   Inl p \<Rightarrow> (Some p, s', cs)
                 | Inr cs' \<Rightarrow> indexLoop cl s' texts (i + batchSize) cs'))
      else (None, s, cs))"
  by pat_completeness auto
termination
  by (relation "measure (\<lambda>(cl, s, texts, i, cs). length texts - i)")
     (auto simp: batchSize_def)

declare indexLoop.simps [simp del]

text \<open>
  \<open>SemanticEngine.IndexChunks\<close>: the engine afterwards, the error (if any), the client's
  state and the caller's chunks.
\<close>

definition IndexChunks ::
  "'c EmbeddingClient \<Rightarrow> 'c \<Rightarrow> SemanticEngine \<Rightarrow> Chunk list \<Rightarrow>
     error option \<times> SemanticEngine \<times> 'c \<times> Chunk list" where
  "IndexChunks cl s e cs =
     (case indexLoop cl s (map Content cs) 0 cs of
        (Some err, s', cs') \<Rightarrow> (Some err, e, s', cs')
      | (None, s', cs') \<Rightarrow>
          (None, e\<lparr>store := AddBatch (store e) cs', isIndexed := True\<rparr>, s', cs'))"

text \<open>\<open>SemanticEngine.Search\<close>\<close>

definition SemanticEngine_Search ::
  "'c EmbeddingClient \<Rightarrow> 'c \<Rightarrow> SemanticEngine \<Rightarrow> string \<Rightarrow> string \<Rightarrow> int \<Rightarrow>
     (error + SemanticResult list) \<times> 'c" where
  "SemanticEngine_Search cl s e query locale topK =
     (if \<not> isIndexed e then (Inl NotIndexedError, s)
      else case Embed cl s query of
             (Inl err, s') \<Rightarrow> (Inl err, s')
           | (Inr queryEmbedding, s') \<Rightarrow>
               (VectorStore_Search (store e) queryEmbedding locale topK, s'))"

section \<open>Chunker and index build\<close>

text \<open>\<open>fmt.Sprintf("%d", n)\<close> for a number that is not negative.\<close>

definition digit :: "nat \<Rightarrow> char" where
  "digit d = ''0123456789'' ! d"

fun itoa :: "nat \<Rightarrow> string" where
  "itoa n = (if n < 10 then [digit n] else itoa (n div 10) @ [digit (n mod 10)])"

declare itoa.simps [simp del]

definition truncateContent :: "string \<Rightarrow> nat \<Rightarrow> string" where
  "truncateContent content maxLen =
     (if length content \<le> maxLen then content else take maxLen content @ ''...'')"

text \<open>
  The loop of \<open>splitLongContent\<close> over the paragraphs, with the buffer \<open>current\<close>; the
  result is what the loop and the final flush append to \<open>chunks\<close>.
\<close>

fun paragraphLoop :: "nat \<Rightarrow> string \<Rightarrow> string list \<Rightarrow> string list" where
  "paragraphLoop maxLen current [] = (if current \<noteq> [] then [TrimSpace current] else [])"
| "paragraphLoop maxLen current (p # ps) =
     (if length current + length p > maxLen \<and> current \<noteq> []
      then TrimSpace current # paragraphLoop maxLen p ps
      else paragraphLoop maxLen
             ((if current \<noteq> [] then current @ ''\<newline>\<newline>'' else current) @ p) ps)"

definition splitLongContent :: "string \<Rightarrow> nat \<Rightarrow> string list" where
  "splitLongContent content maxLen =
     (if length content \<le> maxLen then [content]
      else paragraphLoop maxLen [] (Split content ''\<newline>\<newline>''))"

definition mkChunk :: "nat \<Rightarrow> string \<Rightarrow> string \<Rightarrow> string \<Rightarrow> string \<Rightarrow> string \<Rightarrow> Chunk" where
  "mkChunk idCounter chapterID chapterName section content locale =
     \<lparr>ID = ''chunk_'' @ itoa idCounter, ChapterID = chapterID, ChapterName = chapterName,
      Section = section, Content = content, Embedding = [], Locale = locale\<rparr>"

text \<open>
  The loop \<open>for j, c := range contentChunks\<close> of \<open>splitIntoChunks\<close>; \<open>nparts\<close> is
  \<open>len(contentChunks)\<close>. Each loop returns the chunks it appends and the counter.
\<close>

fun partLoop ::
  "string \<Rightarrow> string \<Rightarrow> string \<Rightarrow> string \<Rightarrow> nat \<Rightarrow> nat \<Rightarrow> string list \<Rightarrow> nat \<Rightarrow> Chunk list \<times> nat" where
  "partLoop chapterID chapterName locale sectionName nparts j [] idCounter = ([], idCounter)"
| "partLoop chapterID chapterName locale sectionName nparts j (c # cs) idCounter =
     (let suffix = (if nparts > 1 then '' (part '' @ itoa (j + 1) @ '')'' else []);
          (rest, n) = partLoop chapterID chapterName locale sectionName nparts (j + 1) cs
                        (idCounter + 1)
      in (mkChunk (idCounter + 1) chapterID chapterName (sectionName @ suffix) c locale # rest, n))"

text \<open>The loop \<open>for i, header := range headers\<close>.\<close>

fun headerLoop ::
  "string \<Rightarrow> string \<Rightarrow> string \<Rightarrow> string list \<Rightarrow> nat \<Rightarrow> string list \<Rightarrow> nat \<Rightarrow> Chunk list \<times> nat" where
  "headerLoop chapterID chapterName locale sections i [] idCounter = ([], idCounter)"
| "headerLoop chapterID chapterName locale sections i (header # headers) idCounter =
     (let sectionContent = (if i + 1 < length sections then TrimSpace (sections ! (i + 1)) else [])
      in if sectionContent = []
         then headerLoop chapterID chapterName locale sections (i + 1) headers idCounter
         else
           let contentChunks = splitLongContent sectionContent 1000;
               (cs, n) = partLoop chapterID chapterName locale header (length contentChunks) 0
                           contentChunks idCounter;
               (rest, n') = headerLoop chapterID chapterName locale sections (i + 1) headers n
           in (cs @ rest, n'))"

text \<open>
  \<open>splitIntoChunks\<close>: the chunks of one chapter and the counter afterwards (the source
  increments the counter through a pointer).
\<close>

definition splitIntoChunks ::
  "string \<Rightarrow> string \<Rightarrow> string \<Rightarrow> string \<Rightarrow> nat \<Rightarrow> Chunk list \<times> nat" where
  "splitIntoChunks content chapterID chapterName locale idCounter =
     (let (sections, headers) = splitSections True [] content;
          (intro, n) =
            (if length sections > 0 \<and> TrimSpace (sections ! 0) \<noteq> []
             then ([mkChunk (idCounter + 1) chapterID chapterName ''Introduction''
                      (truncateContent (TrimSpace (sections ! 0)) 1000) locale],
                   idCounter + 1)
             else ([], idCounter));
          (rest, n') = headerLoop chapterID chapterName locale sections 0 headers n
      in (intro @ rest, n'))"

text \<open>
  \<open>handleBuildSemanticIndex\<close>. The listing of a locale's chapters reads the file
  system; it is the parameter \<open>ListChapters\<close>, from the locale to the error or the
  chapters. \<open>buildAllChunks\<close> is the handler from \<open>chunkID := 0\<close> to the end of the loop
  over the locales: the error of a failed listing, or \<open>allChunks\<close> and the counter.
\<close>

fun chapterLoop :: "Chapter list \<Rightarrow> string \<Rightarrow> nat \<Rightarrow> Chunk list \<times> nat" where
  "chapterLoop [] locale chunkID = ([], chunkID)"
| "chapterLoop (chapter # chapters) locale chunkID =
     (let (cs, n) = splitIntoChunks (ch_Content chapter) (ch_ID chapter) (ch_Name chapter)
                      locale chunkID;
          (rest, n') = chapterLoop chapters locale n
      in (cs @ rest, n'))"

fun localeLoop ::
  "(string \<Rightarrow> error + Chapter list) \<Rightarrow> string list \<Rightarrow> nat \<Rightarrow> error + Chunk list \<times> nat" where
  "localeLoop ListChapters [] chunkID = Inr ([], chunkID)"
| "localeLoop ListChapters (locale # locales) chunkID =
     (case ListChapters locale of
        Inl err \<Rightarrow> Inl err
      | Inr chapters \<Rightarrow>
          (let (cs, n) = chapterLoop chapters locale chunkID
           in case localeLoop ListChapters locales n of
                Inl err \<Rightarrow> Inl err
              | Inr (rest, n') \<Rightarrow> Inr (cs @ rest, n')))"

definition buildLocales :: "string \<Rightarrow> string list" where
  "buildLocales localeParam = (if localeParam = ''all'' then [''es'', ''en''] else [localeParam])"

definition buildAllChunks ::
  "(string \<Rightarrow> error + Chapter list) \<Rightarrow> string \<Rightarrow> error + Chunk list \<times> nat" where
  "buildAllChunks ListChapters localeParam =
     localeLoop ListChapters (buildLocales localeParam) 0"

text \<open>
  The whole handler on the process's engine (absent when no provider is available): the
  engine and the client's state afterwards, and the error of the tool result or, for
  the success text, the numbers of chunks and of locales it reports.
\<close>

definition handleBuildSemanticIndex ::
  "(string \<Rightarrow> error + Chapter list) \<Rightarrow> 'c EmbeddingClient \<Rightarrow> 'c \<Rightarrow> SemanticEngine option \<Rightarrow>
     string \<Rightarrow> (error + nat \<times> nat) \<times> SemanticEngine option \<times> 'c" where
  "handleBuildSemanticIndex ListChapters cl s semanticEngine localeParam =
     (case semanticEngine of
        None \<Rightarrow> (Inl NotAvailable, None, s)
      | Some e \<Rightarrow>
          (case buildAllChunks ListChapters localeParam of
             Inl err \<Rightarrow> (Inl err, Some e, s)
           | Inr (allChunks, n) \<Rightarrow>
               (case IndexChunks cl s e allChunks of
                  (Some err, e', s', cs') \<Rightarrow> (Inl err, Some e', s')
                | (None, e', s', cs') \<Rightarrow>
                    (Inr (length allChunks, length (buildLocales localeParam)), Some e', s'))))"

section \<open>Document parser and lexical search\<close>

subsection \<open>Slugs and sections\<close>

definition asciiAlnum :: "char \<Rightarrow> bool" where
  "asciiAlnum c = (c \<in> set (upperChars @ lowerChars @ digitChars))"

text \<open>
  The class \<open>[\p{L}\p{N}-]\<close> on one UTF-8 sequence: ASCII letters, digits and the
  hyphen; outside ASCII what the tables say; never a byte that starts no sequence.
\<close>

definition keepRune :: "UnicodeTables \<Rightarrow> string \<Rightarrow> bool" where
  "keepRune U r =
     (if length r = 1 then asciiAlnum (hd r) \<or> hd r = CHR ''-''
      else IsLetter U r \<or> IsNumber U r)"

text \<open>
  \<open>regexp.MustCompile(`-+`).ReplaceAllString(s, "-")\<close>: every run of hyphens becomes
  one hyphen; \<open>prev\<close> says that the byte before was a hyphen.
\<close>

fun collapseFrom :: "bool \<Rightarrow> string \<Rightarrow> string" where
  "collapseFrom prev [] = []"
| "collapseFrom prev (c # s) =
     (if c = CHR ''-'' then (if prev then [] else [c]) @ collapseFrom True s
      else c # collapseFrom False s)"

definition collapseHyphens :: "string \<Rightarrow> string" where
  "collapseHyphens s = collapseFrom False s"

text \<open>\<open>Parser.generateTagID\<close>, step by step as the source.\<close>

definition generateTagID :: "UnicodeTables \<Rightarrow> string \<Rightarrow> string" where
  "generateTagID U title =
     (let tagID = ToLower U title;
          tagID = map (\<lambda>c. if c = CHR '' '' then CHR ''-'' else c) tagID;
          tagID = concat (filter (keepRune U) (runes tagID));
          tagID = collapseHyphens tagID;
          tagID = trimHyphens tagID
      in tagID)"

text \<open>
  \<open>Parser.GetChapter\<close>. The listing of a locale's chapters reads the file system: it
  is the parameter \<open>ListChapters\<close>, as in the index build.
\<close>

definition GetChapter ::
  "(string \<Rightarrow> error + Chapter list) \<Rightarrow> string \<Rightarrow> string \<Rightarrow> error + Chapter" where
  "GetChapter ListChapters chapterID locale =
     (case ListChapters locale of
        Inl err \<Rightarrow> Inl err
      | Inr chapters \<Rightarrow>
          (case find (\<lambda>ch. ch_ID ch = chapterID) chapters of
             Some ch \<Rightarrow> Inr ch
           | None \<Rightarrow> Inl (ChapterNotFound chapterID)))"

text \<open>
  The loop of \<open>Parser.GetSection\<close> over the lines: what it writes to \<open>sectionContent\<close>.
  A heading with the requested slug is written and sets \<open>inSection\<close>; any other heading
  ends the loop when \<open>inSection\<close> is set; every other line is written when it is set.
\<close>

fun sectionLoop :: "UnicodeTables \<Rightarrow> string \<Rightarrow> bool \<Rightarrow> string list \<Rightarrow> string" where
  "sectionLoop U sectionTagID inSection [] = []"
| "sectionLoop U sectionTagID inSection (line # ls) =
     (case headerPattern line of
        Some headerText \<Rightarrow>
          if generateTagID U headerText = sectionTagID
          then line @ [NL] @ sectionLoop U sectionTagID True ls
          else if inSection then []
          else sectionLoop U sectionTagID inSection ls
      | None \<Rightarrow>
          (if inSection then line @ [NL] else []) @ sectionLoop U sectionTagID inSection ls)"

definition GetSection ::
  "UnicodeTables \<Rightarrow> (string \<Rightarrow> error + Chapter list) \<Rightarrow> string \<Rightarrow> string \<Rightarrow> string \<Rightarrow>
     error + string" where
  "GetSection U ListChapters chapterID sectionTagID locale =
     (case GetChapter ListChapters chapterID locale of
        Inl err \<Rightarrow> Inl err
      | Inr chapter \<Rightarrow>
          (let sectionContent =
                 sectionLoop U sectionTagID False (Split (ch_Content chapter) [NL])
           in if length sectionContent = 0 then Inl (SectionNotFound sectionTagID)
              else Inr (TrimSpace sectionContent)))"

subsection \<open>Lexical search\<close>

text \<open>
  The loop of \<open>Parser.Search\<close> over the lines of one chapter: the results it appends.
  \<open>matchCount\<close> counts the query words that the lower-cased line contains, each word
  of the query as often as the query holds it.
\<close>

definition matchCount :: "UnicodeTables \<Rightarrow> string list \<Rightarrow> string \<Rightarrow> nat" where
  "matchCount U queryWords line =
     length (filter (\<lambda>word. Contains (ToLower U line) word) queryWords)"

definition mkSnippet :: "string \<Rightarrow> string" where
  "mkSnippet line = (if length line > 200 then take 200 line @ ''...'' else line)"

fun scanLoop ::
  "UnicodeTables \<Rightarrow> string list \<Rightarrow> string \<Rightarrow> Chapter \<Rightarrow> nat \<Rightarrow> string \<Rightarrow> string list \<Rightarrow>
     SearchResult list" where
  "scanLoop U queryWords locale chapter lineNum currentSection [] = []"
| "scanLoop U queryWords locale chapter lineNum currentSection (line # ls) =
     (let currentSection' =
            (case headerPattern line of Some h \<Rightarrow> h | None \<Rightarrow> currentSection)
      in (if matchCount U queryWords line > 0
          then [\<lparr>res_ChapterID = ch_ID chapter, res_ChapterName = ch_Name chapter,
                 res_Section = currentSection', res_Snippet = mkSnippet line,
                 res_LineNumber = lineNum + 1,
                 res_Relevance = real (matchCount U queryWords line) / real (length queryWords),
                 res_Locale = locale\<rparr>]
          else [])
         @ scanLoop U queryWords locale chapter (lineNum + 1) currentSection' ls)"

definition chapterHits ::
  "UnicodeTables \<Rightarrow> string list \<Rightarrow> string \<Rightarrow> Chapter \<Rightarrow> SearchResult list" where
  "chapterHits U queryWords locale chapter =
     scanLoop U queryWords locale chapter 0 [] (scanLines (ch_Content chapter))"

text \<open>
  \<open>sort.Slice\<close> does not say how it orders elements that compare equal, and its
  algorithm is no part of the program: it is the parameter \<open>sortSlice\<close>, taking the
  function \<open>less\<close> (here \<open>lt\<close>) and the slice. \<open>sortsBy\<close> is what the library promises of it: the
  result holds the same elements and no element is less than one before it.
\<close>

definition sortsBy ::
  "(('a \<Rightarrow> 'a \<Rightarrow> bool) \<Rightarrow> 'a list \<Rightarrow> 'a list) \<Rightarrow> ('a \<Rightarrow> 'a \<Rightarrow> bool) \<Rightarrow> bool" where
  "sortsBy sortSlice lt =
     (\<forall>xs. mset (sortSlice lt xs) = mset xs
         \<and> sorted_wrt (\<lambda>a b. \<not> lt b a) (sortSlice lt xs))"

definition byRelevance :: "SearchResult \<Rightarrow> SearchResult \<Rightarrow> bool" where
  "byRelevance a b = (res_Relevance a > res_Relevance b)"

text \<open>\<open>Parser.Search\<close>\<close>

definition Search ::
  "UnicodeTables \<Rightarrow> ((SearchResult \<Rightarrow> SearchResult \<Rightarrow> bool) \<Rightarrow> SearchResult list \<Rightarrow> SearchResult list) \<Rightarrow>
     (string \<Rightarrow> error + Chapter list) \<Rightarrow> string \<Rightarrow> string \<Rightarrow> error + SearchResult list" where
  "Search U sortSlice ListChapters query locale =
     (case ListChapters locale of
        Inl err \<Rightarrow> Inl err
      | Inr chapters \<Rightarrow>
          (let queryWords = Fields (ToLower U query);
               results = concat (map (chapterHits U queryWords locale) chapters);
               results = sortSlice byRelevance results
           in Inr (if length results > 20 then take 20 results else results)))"

text \<open>An insertion sort, for the examples: one function that \<open>sortsBy\<close> accepts.\<close>

fun insertBy :: "('a \<Rightarrow> 'a \<Rightarrow> bool) \<Rightarrow> 'a \<Rightarrow> 'a list \<Rightarrow> 'a list" where
  "insertBy lt x [] = [x]"
| "insertBy lt x (y # ys) = (if lt y x then y # insertBy lt x ys else x # y # ys)"

definition insertionSort :: "('a \<Rightarrow> 'a \<Rightarrow> bool) \<Rightarrow> 'a list \<Rightarrow> 'a list" where
  "insertionSort lt xs = foldr (insertBy lt) xs []"

subsection \<open>Front matter\<close>

abbreviation DQ :: char where
  "DQ \<equiv> CHR 0x22"

abbreviation SQ :: char where
  "SQ \<equiv> CHR 0x27"

definition isQuote :: "char \<Rightarrow> bool" where
  "isQuote c = (c = SQ \<or> c = DQ)"

definition isDigit :: "char \<Rightarrow> bool" where
  "isDigit c = (c \<in> set digitChars)"

text \<open>
  The patterns \<open>id:\s*['"]([^'"]+)['"]\<close> and \<open>name:\s*['"]([^'"]+)['"]\<close> after their
  key: white space, a quote, the longest run of characters that are no quotes (not
  empty), a quote. The result is the run.
\<close>

definition quotedValue :: "string \<Rightarrow> string option" where
  "quotedValue rest =
     (case dropWhile reSpace rest of
        [] \<Rightarrow> None
      | q # r \<Rightarrow>
          if isQuote q \<and> takeWhile (\<lambda>c. \<not> isQuote c) r \<noteq> [] \<and> dropWhile (\<lambda>c. \<not> isQuote c) r \<noteq> []
          then Some (takeWhile (\<lambda>c. \<not> isQuote c) r) else None)"

text \<open>The pattern \<open>order:\s*(\d+)\<close> after its key: the digits.\<close>

definition digitsValue :: "string \<Rightarrow> string option" where
  "digitsValue rest =
     (let ds = takeWhile isDigit (dropWhile reSpace rest)
      in if ds = [] then None else Some ds)"

text \<open>
  \<open>FindStringSubmatch\<close> for a pattern that starts with the literal \<open>key\<close>: the capture
  group of the leftmost match.
\<close>

fun findAfterKey :: "string \<Rightarrow> (string \<Rightarrow> string option) \<Rightarrow> string \<Rightarrow> string option" where
  "findAfterKey key val [] = (if key = [] then val [] else None)"
| "findAfterKey key val (c # s) =
     (case (if prefix key (c # s) then val (drop (length key) (c # s)) else None) of
        Some v \<Rightarrow> Some v
      | None \<Rightarrow> findAfterKey key val s)"

text \<open>
  \<open>strconv.Atoi\<close> on digits, with the result the source keeps when it drops the
  error: a number past the range of a 64-bit \<open>int\<close> comes out as the largest \<open>int\<close>.
\<close>

definition Atoi :: "string \<Rightarrow> int" where
  "Atoi ds = min (int (atoi ds)) (2 ^ 63 - 1)"

text \<open>
  The bracket-counting loop of \<open>parseFrontmatter\<close> from \<open>startPos\<close>: \<open>arrayEnd\<close>, or
  \<open>None\<close> for -1.
\<close>

fun bracketEnd :: "int \<Rightarrow> nat \<Rightarrow> string \<Rightarrow> nat option" where
  "bracketEnd bracketCount i [] = None"
| "bracketEnd bracketCount i (c # s) =
     (if c = CHR ''['' then bracketEnd (bracketCount + 1) (i + 1) s
      else if c = CHR '']'' then
        (if bracketCount - 1 = 0 then Some (i + 1) else bracketEnd (bracketCount - 1) (i + 1) s)
      else bracketEnd bracketCount (i + 1) s)"

definition titleListLiteral :: "string \<Rightarrow> string option" where
  "titleListLiteral fmContent =
     (case Index fmContent ''titleList:'' of
        None \<Rightarrow> None
      | Some titleListStart \<Rightarrow>
          (case Index (drop titleListStart fmContent) ''['' of
             None \<Rightarrow> None
           | Some arrayStart \<Rightarrow>
               (let startPos = titleListStart + arrayStart
                in case bracketEnd 0 startPos (drop startPos fmContent) of
                     None \<Rightarrow> None
                   | Some arrayEnd \<Rightarrow> Some (take (arrayEnd - startPos) (drop startPos fmContent)))))"

text \<open>
  The replacements of \<open>cleanArrayToJSON\<close>, each over the leftmost matches that do not
  overlap: \<open>(\s)name:\<close> by \<open>$1"name":\<close>, \<open>{\s*name:\<close> by \<open>{"name":\<close> (and the same
  for \<open>tagId\<close>), \<open>\s+\<close> by one space.
\<close>

function quoteSpaceKey :: "string \<Rightarrow> string \<Rightarrow> string" where
  "quoteSpaceKey k [] = []"
| "quoteSpaceKey k (c # s) =
     (if reSpace c \<and> prefix (k @ '':'') s
      then c # DQ # k @ [DQ, CHR '':''] @ quoteSpaceKey k (drop (length k + 1) s)
      else c # quoteSpaceKey k s)"
  by pat_completeness auto
termination
  by (relation "measure (\<lambda>(k, s). length s)") auto

function quoteBraceKey :: "string \<Rightarrow> string \<Rightarrow> string" where
  "quoteBraceKey k [] = []"
| "quoteBraceKey k (c # s) =
     (if c = CHR ''{'' \<and> prefix (k @ '':'') (dropWhile reSpace s)
      then c # DQ # k @ [DQ, CHR '':'']
           @ quoteBraceKey k (drop (length k + 1) (dropWhile reSpace s))
      else c # quoteBraceKey k s)"
  by pat_completeness auto
termination
proof (relation "measure (\<lambda>(k, s). length s)")
  fix k s :: string and c
  have "length (dropWhile reSpace s) \<le> length s" by (rule length_dropWhile_le)
  then show "((k, drop (length k + 1) (dropWhile reSpace s)), (k, c # s))
      \<in> measure (\<lambda>(k, s). length s)"
    by simp
qed auto

function collapseSpaces :: "string \<Rightarrow> string" where
  "collapseSpaces [] = []"
| "collapseSpaces (c # s) =
     (if reSpace c then CHR '' '' # collapseSpaces (dropWhile reSpace s)
      else c # collapseSpaces s)"
  by pat_completeness auto
termination
proof (relation "measure length")
  fix s :: string and c
  have "length (dropWhile reSpace s) \<le> length s" by (rule length_dropWhile_le)
  then show "(dropWhile reSpace s, c # s) \<in> measure length" by simp
qed auto

text \<open>\<open>Parser.cleanArrayToJSON\<close>\<close>

definition cleanArrayToJSON :: "string \<Rightarrow> string" where
  "cleanArrayToJSON content =
     (let content = map (\<lambda>c. if c = SQ then DQ else c) content;
          content = quoteSpaceKey ''name'' content;
          content = quoteSpaceKey ''tagId'' content;
          content = quoteBraceKey ''name'' content;
          content = quoteBraceKey ''tagId'' content;
          content = collapseSpaces content
      in content)"

text \<open>
  \<open>Parser.parseFrontmatter\<close>. The decoder \<open>json.Unmarshal\<close> into a slice of sections is
  the library's: it is the parameter \<open>unmarshal\<close>, \<open>None\<close> when it returns an error.
\<close>

definition parseFrontmatter ::
  "(string \<Rightarrow> Section list option) \<Rightarrow> string \<Rightarrow> error + frontmatter \<times> string" where
  "parseFrontmatter unmarshal content =
     (if \<not> prefix ''---'' content then Inl NoFrontmatter
      else case Index (drop 3 content) ''---'' of
             None \<Rightarrow> Inl FrontmatterNotClosed
           | Some endIndex \<Rightarrow>
               (let fmContent = take endIndex (drop 3 content);
                    body = TrimSpace (drop (endIndex + 6) content)
                in Inr
                   (\<lparr>fm_ID = (case findAfterKey ''id:'' quotedValue fmContent of
                                Some v \<Rightarrow> v | None \<Rightarrow> []),
                     fm_Order = (case findAfterKey ''order:'' digitsValue fmContent of
                                   Some ds \<Rightarrow> Atoi ds | None \<Rightarrow> 0),
                     fm_Name = (case findAfterKey ''name:'' quotedValue fmContent of
                                  Some v \<Rightarrow> v | None \<Rightarrow> []),
                     fm_TitleList =
                       (case titleListLiteral fmContent of
                          None \<Rightarrow> []
                        | Some arrayContent \<Rightarrow>
                            (case unmarshal (cleanArrayToJSON arrayContent) of
                               Some sections \<Rightarrow> sections
                             | None \<Rightarrow> []))\<rparr>,
                    body)))"

text \<open>
  \<open>Parser.ParseChapter\<close>; \<open>readFile\<close> is \<open>os.ReadFile\<close>, \<open>None\<close> when it returns an
  error.
\<close>

definition ParseChapter ::
  "(string \<Rightarrow> Section list option) \<Rightarrow> (string \<Rightarrow> string option) \<Rightarrow> string \<Rightarrow> string \<Rightarrow>
     error + Chapter" where
  "ParseChapter unmarshal readFile filePath locale =
     (case readFile filePath of
        None \<Rightarrow> Inl (ReadError filePath)
      | Some contentStr \<Rightarrow>
          (case parseFrontmatter unmarshal contentStr of
             Inl err \<Rightarrow> Inl (ParseError filePath err)
           | Inr (fm, body) \<Rightarrow>
               Inr \<lparr>ch_ID = fm_ID fm, ch_Order = fm_Order fm, ch_Name = fm_Name fm,
                    ch_Locale = locale, ch_TitleList = fm_TitleList fm, ch_Content = body,
                    ch_FilePath = filePath\<rparr>))"

section \<open>Properties of the lexical search\<close>

text \<open>
  The hit the specification describes for line \<open>i\<close> (from 0) of the scanned lines of a
  chapter: the section is the text of the last heading up to and including the line,
  the snippet is the line cut to 200 bytes with an ellipsis when it is longer, the
  relevance is the number of query words the lower-cased line contains over the number
  of query words. \<open>expectedHits\<close> lists the hits of all lines that contain a query word,
  chapter by chapter, line by line.
\<close>

definition sectionStep :: "string \<Rightarrow> string \<Rightarrow> string" where
  "sectionStep cur line = (case headerPattern line of Some h \<Rightarrow> h | None \<Rightarrow> cur)"

definition lineHit ::
  "UnicodeTables \<Rightarrow> string list \<Rightarrow> string \<Rightarrow> Chapter \<Rightarrow> string list \<Rightarrow> nat \<Rightarrow> SearchResult" where
  "lineHit U queryWords locale chapter lines i =
     \<lparr>res_ChapterID = ch_ID chapter, res_ChapterName = ch_Name chapter,
      res_Section = foldl sectionStep [] (take (Suc i) lines),
      res_Snippet = (if length (lines ! i) > 200 then take 200 (lines ! i) @ ''...'' else lines ! i),
      res_LineNumber = i + 1,
      res_Relevance =
        real (length (filter (\<lambda>w. Contains (ToLower U (lines ! i)) w) queryWords))
          / real (length queryWords),
      res_Locale = locale\<rparr>"

definition lineMatches :: "UnicodeTables \<Rightarrow> string list \<Rightarrow> string \<Rightarrow> bool" where
  "lineMatches U queryWords line = (\<exists>w\<in>set queryWords. Contains (ToLower U line) w)"

definition expectedHits ::
  "UnicodeTables \<Rightarrow> string list \<Rightarrow> string \<Rightarrow> Chapter list \<Rightarrow> SearchResult list" where
  "expectedHits U queryWords locale chapters =
     concat (map (\<lambda>ch. map (lineHit U queryWords locale ch (scanLines (ch_Content ch)))
                          (filter (\<lambda>i. lineMatches U queryWords (scanLines (ch_Content ch) ! i))
                             [0 ..< length (scanLines (ch_Content ch))]))
               chapters)"

lemma scanLoop_eq:
  "scanLoop U qw loc ch n cur ls =
     map (\<lambda>i. (lineHit U qw loc ch ls i)
                \<lparr>res_Section := foldl sectionStep cur (take (Suc i) ls),
                 res_LineNumber := n + i + 1\<rparr>)
       (filter (\<lambda>i. matchCount U qw (ls ! i) > 0) [0 ..< length ls])"
proof (induction ls arbitrary: n cur)
  case Nil
  then show ?case by simp
next
  case (Cons l ls)
  have upt: "[0 ..< length (l # ls)] = 0 # map Suc [0 ..< length ls]"
    by (simp add: upt_conv_Cons map_Suc_upt del: upt_Suc)
  show ?case
    unfolding upt
    by (simp add: Cons.IH Let_def filter_map comp_def lineHit_def matchCount_def mkSnippet_def
        sectionStep_def del: upt_Suc)
qed

lemma chapterHits_eq:
  "chapterHits U qw loc ch =
     map (lineHit U qw loc ch (scanLines (ch_Content ch)))
       (filter (\<lambda>i. matchCount U qw (scanLines (ch_Content ch) ! i) > 0)
          [0 ..< length (scanLines (ch_Content ch))])"
  unfolding chapterHits_def scanLoop_eq
  by (rule map_cong) (simp_all add: lineHit_def)

lemma sortsBy_mset: "sortsBy srt lt \<Longrightarrow> mset (srt lt xs) = mset xs"
  by (simp add: sortsBy_def)

lemma sortsBy_sorted: "sortsBy srt lt \<Longrightarrow> sorted_wrt (\<lambda>a b. \<not> lt b a) (srt lt xs)"
  by (simp add: sortsBy_def)


lemma Search_eq:
  "ListChapters locale = Inr chapters \<Longrightarrow>
   Search U srt ListChapters query locale =
     Inr (take 20 (srt byRelevance
            (concat (map (chapterHits U (Fields (ToLower U query)) locale) chapters))))"
  by (simp add: Search_def Let_def)

lemma Contains_iff: "Contains s w \<longleftrightarrow> (\<exists>a b. s = a @ w @ b)"
proof -
  have "Index s w \<noteq> None \<longleftrightarrow> (\<exists>a b. s = a @ w @ b)"
  proof (induction s)
    case Nil
    then show ?case by auto
  next
    case (Cons c s)
    show ?case
    proof (cases "prefix w (c # s)")
      case True
      then obtain b where "c # s = w @ b" by (auto simp: prefix_def)
      then have "c # s = [] @ w @ b" by simp
      then have "\<exists>a b. c # s = a @ w @ b" by blast
      moreover from True have "Index (c # s) w = Some 0" by simp
      ultimately show ?thesis by simp
    next
      case False
      have "(\<exists>a b. c # s = a @ w @ b) \<longleftrightarrow> (\<exists>a b. s = a @ w @ b)"
      proof
        assume "\<exists>a b. c # s = a @ w @ b"
        then obtain a b where ab: "c # s = a @ w @ b" by blast
        show "\<exists>a b. s = a @ w @ b"
        proof (cases a)
          case Nil
          with ab False show ?thesis by (auto simp: prefix_def)
        next
          case (Cons x a')
          with ab show ?thesis by auto
        qed
      next
        assume "\<exists>a b. s = a @ w @ b"
        then obtain a b where "s = a @ w @ b" by blast
        then have "c # s = (c # a) @ w @ b" by simp
        then show "\<exists>a b. c # s = a @ w @ b" by blast
      qed
      with False Cons show ?thesis by simp
    qed
  qed
  then show ?thesis by (simp add: Contains_def)
qed

lemma matchCount_pos: "matchCount U qw l > 0 \<longleftrightarrow> (\<exists>w\<in>set qw. Contains (ToLower U l) w)"
  by (auto simp: matchCount_def filter_empty_conv)







lemma asciiLower_code [simp]:
  "asciiLower (CHR 0x09) = CHR 0x09" "asciiLower (CHR 0x0A) = CHR 0x0A"
  "asciiLower (CHR 0x0B) = CHR 0x0B" "asciiLower (CHR 0x0C) = CHR 0x0C"
  "asciiLower (CHR 0x0D) = CHR 0x0D" "asciiLower (CHR 0x20) = CHR 0x20"
  by (simp_all add: asciiLower_def upperChars_def lowerChars_def)





lemma allHits_expected:
  "concat (map (chapterHits U qw loc) chapters) = expectedHits U qw loc chapters"
proof -
  have "chapterHits U qw loc =
      (\<lambda>ch. map (lineHit U qw loc ch (scanLines (ch_Content ch)))
              (filter (\<lambda>i. lineMatches U qw (scanLines (ch_Content ch) ! i))
                 [0 ..< length (scanLines (ch_Content ch))]))"
    by (rule ext) (simp add: chapterHits_eq matchCount_pos lineMatches_def)
  then show ?thesis by (simp add: expectedHits_def)
qed

lemma expectedHits_none:
  assumes "\<forall>ch\<in>set chapters. \<forall>l\<in>set (scanLines (ch_Content ch)). \<not> lineMatches U qw l"
  shows "expectedHits U qw loc chapters = []"
proof -
  have "filter (\<lambda>i. lineMatches U qw (scanLines (ch_Content ch) ! i))
          [0 ..< length (scanLines (ch_Content ch))] = []" if "ch \<in> set chapters" for ch
    using assms that by (auto simp: filter_empty_conv)
  then show ?thesis by (simp add: expectedHits_def)
qed

lemma byRelevance_not: "(\<not> byRelevance b a) = (res_Relevance a \<ge> res_Relevance b)"
  by (auto simp: byRelevance_def)

lemma mset_insertBy: "mset (insertBy lt x ys) = add_mset x (mset ys)"
  by (induction ys) simp_all

lemma set_insertBy: "set (insertBy lt x ys) = insert x (set ys)"
  by (induction ys) auto

lemma sorted_insertBy:
  "sorted_wrt (\<lambda>a b. res_Relevance a \<ge> res_Relevance b) ys \<Longrightarrow>
   sorted_wrt (\<lambda>a b. res_Relevance a \<ge> res_Relevance b) (insertBy byRelevance x ys)"
  by (induction ys) (auto simp: set_insertBy byRelevance_def)

lemma sortsBy_insertionSort: "sortsBy insertionSort byRelevance"
proof -
  have "mset (insertionSort byRelevance xs) = mset xs
      \<and> sorted_wrt (\<lambda>a b. res_Relevance a \<ge> res_Relevance b) (insertionSort byRelevance xs)" for xs
    by (induction xs) (simp_all add: insertionSort_def mset_insertBy sorted_insertBy)
  then show ?thesis by (simp add: sortsBy_def byRelevance_not)
qed

text \<open>
  For the examples: tables that hold no character outside ASCII (no example reads
  them), and a locale of one chapter.
\<close>

definition asciiTables :: UnicodeTables where
  "asciiTables = \<lparr>ToLowerRune = (\<lambda>r. r), IsLetter = (\<lambda>r. False), IsNumber = (\<lambda>r. False)\<rparr>"

definition oneChapter :: "string \<Rightarrow> string \<Rightarrow> error + Chapter list" where
  "oneChapter body locale =
     Inr [\<lparr>ch_ID = ''ch1'', ch_Order = 1, ch_Name = ''One'', ch_Locale = locale,
           ch_TitleList = [], ch_Content = body, ch_FilePath = ''ch1.mdx''\<rparr>]"




text \<open>
  C5, as stated, fails on a query that repeats a term: the query "go go rust" has three
  terms, the line "go is fun" contains one distinct term of them, and the relevance of
  its hit is 2/3, not 1/3: each occurrence of the term in the query counts.
\<close>

theorem C5_duplicate_terms_count_twice: "Search asciiTables insertionSort (oneChapter ''go is fun'') ''go go rust'' ''es''
   = Inr [\<lparr>res_ChapterID = ''ch1'', res_ChapterName = ''One'', res_Section = [],
           res_Snippet = ''go is fun'', res_LineNumber = 1, res_Relevance = 2 / 3,
           res_Locale = ''es''\<rparr>]
  \<and> length (remdups (filter (Contains (ToLower asciiTables ''go is fun''))
        (Fields (ToLower asciiTables ''go go rust'')))) = 1
  \<and> length (Fields (ToLower asciiTables ''go go rust'')) = 3"
  by code_simp


text \<open>
  C5, amended: when listing the locale's chapters succeeds, lexical search returns the
  first 20 of the expected hits put in an order of non-increasing relevance. There is
  one expected hit per scanned line that contains at least one lower-cased query term
  as a substring; its relevance is the number of query terms the line contains, a term
  that stands several times in the query counted each time, divided by the number of
  query terms; its snippet is the line cut to 200 bytes with an ellipsis marker when
  the line is longer. The returned list is sorted non-increasing by relevance, has at
  most 20 hits, and a query matching no line returns the empty list, not an error.
\<close>

theorem C5_lexical_search:
  assumes "sortsBy sortSlice byRelevance" and "ListChapters locale = Inr chapters"
  shows "\<exists>ordered.
           mset ordered = mset (expectedHits U (Fields (ToLower U query)) locale chapters)
         \<and> sorted_wrt (\<lambda>a b. res_Relevance a \<ge> res_Relevance b) ordered
         \<and> Search U sortSlice ListChapters query locale = Inr (take 20 ordered)
         \<and> length (take 20 ordered) \<le> 20
         \<and> sorted_wrt (\<lambda>a b. res_Relevance a \<ge> res_Relevance b) (take 20 ordered)
         \<and> ((\<forall>ch\<in>set chapters. \<forall>l\<in>set (scanLines (ch_Content ch)).
                \<not> lineMatches U (Fields (ToLower U query)) l)
              \<longrightarrow> Search U sortSlice ListChapters query locale = Inr [])"
proof -
  define ordered where
    "ordered = sortSlice byRelevance (expectedHits U (Fields (ToLower U query)) locale chapters)"
  have m: "mset ordered = mset (expectedHits U (Fields (ToLower U query)) locale chapters)"
    unfolding ordered_def using assms(1) by (rule sortsBy_mset)
  have "sorted_wrt (\<lambda>a b. \<not> byRelevance b a) ordered"
    unfolding ordered_def using assms(1) by (rule sortsBy_sorted)
  then have so: "sorted_wrt (\<lambda>a b. res_Relevance a \<ge> res_Relevance b) ordered"
    by (simp add: byRelevance_not)
  have se: "Search U sortSlice ListChapters query locale = Inr (take 20 ordered)"
    using assms(2) by (simp add: Search_eq allHits_expected ordered_def)
  have st: "sorted_wrt (\<lambda>a b. res_Relevance a \<ge> res_Relevance b) (take 20 ordered)"
    using so by (rule sorted_wrt_take)
  have none: "Search U sortSlice ListChapters query locale = Inr []"
    if "\<forall>ch\<in>set chapters. \<forall>l\<in>set (scanLines (ch_Content ch)).
          \<not> lineMatches U (Fields (ToLower U query)) l"
  proof -
    from expectedHits_none [OF that] m have "ordered = []" by simp
    with se show ?thesis by simp
  qed
  from m so se st none show ?thesis by (intro exI [of _ ordered]) simp
qed

theorem C5_lexical_search_witness:
  "sortsBy insertionSort byRelevance
   \<and> oneChapter ''go is fun'' ''es'' =
       Inr [\<lparr>ch_ID = ''ch1'', ch_Order = 1, ch_Name = ''One'', ch_Locale = ''es'',
             ch_TitleList = [], ch_Content = ''go is fun'', ch_FilePath = ''ch1.mdx''\<rparr>]
   \<and> (\<exists>ordered.
           mset ordered = mset (expectedHits asciiTables (Fields (ToLower asciiTables ''go rust''))
                                  ''es''
                                  [\<lparr>ch_ID = ''ch1'', ch_Order = 1, ch_Name = ''One'',
                                     ch_Locale = ''es'', ch_TitleList = [],
                                     ch_Content = ''go is fun'', ch_FilePath = ''ch1.mdx''\<rparr>])
         \<and> Search asciiTables insertionSort (oneChapter ''go is fun'') ''go rust'' ''es''
             = Inr (take 20 ordered))
   \<and> Search asciiTables insertionSort (oneChapter ''go is fun'') ''go rust'' ''es''
       = Inr [\<lparr>res_ChapterID = ''ch1'', res_ChapterName = ''One'', res_Section = [],
               res_Snippet = ''go is fun'', res_LineNumber = 1, res_Relevance = 1 / 2,
               res_Locale = ''es''\<rparr>]"
proof -
  have a: "sortsBy insertionSort byRelevance" by (rule sortsBy_insertionSort)
  have b: "oneChapter ''go is fun'' ''es'' =
       Inr [\<lparr>ch_ID = ''ch1'', ch_Order = 1, ch_Name = ''One'', ch_Locale = ''es'',
             ch_TitleList = [], ch_Content = ''go is fun'', ch_FilePath = ''ch1.mdx''\<rparr>]"
    by (simp add: oneChapter_def)
  have d: "Search asciiTables insertionSort (oneChapter ''go is fun'') ''go rust'' ''es''
       = Inr [\<lparr>res_ChapterID = ''ch1'', res_ChapterName = ''One'', res_Section = [],
               res_Snippet = ''go is fun'', res_LineNumber = 1, res_Relevance = 1 / 2,
               res_Locale = ''es''\<rparr>]"
    by code_simp
  from C5_lexical_search [of insertionSort "oneChapter ''go is fun''" "''es''" _ asciiTables
      "''go rust''", OF a b] a b d
  show ?thesis by blast
qed

section \<open>Properties of the section lookup\<close>





















text \<open>
  When the heading that follows has the same slug, the loop writes it too and goes on
  to the next heading with another slug. The amended claim leaves this case out.
\<close>

lemma GetSection_repeated_slug: "GetSection asciiTables
       (oneChapter ''# A\<newline>x\<newline># A\<newline>y\<newline># B\<newline>z'') ''ch1'' ''a'' ''es''
     = Inr ''# A\<newline>x\<newline># A\<newline>y''"
  by code_simp




section \<open>Properties of the document parser\<close>

text \<open>
  For the examples: a file system that answers every read with one text, a decoder that
  rejects every text, and a decoder that knows one array of one section.
\<close>

definition fileOf :: "string \<Rightarrow> string \<Rightarrow> string option" where
  "fileOf content filePath = Some content"

definition rejectAll :: "string \<Rightarrow> Section list option" where
  "rejectAll text = None"

definition decodeSample :: "string \<Rightarrow> Section list option" where
  "decodeSample text =
     (if text = [CHR ''['', CHR ''{'', DQ] @ ''name'' @ [DQ, CHR '':'', CHR '' '', DQ] @ ''A''
                @ [DQ, CHR '','', CHR '' '', DQ] @ ''tagId'' @ [DQ, CHR '':'', CHR '' '', DQ]
                @ ''a'' @ [DQ, CHR ''}'', CHR '']'']
      then Some [\<lparr>sec_Name = ''A'', sec_TagID = ''a''\<rparr>] else None)"

lemma parseFrontmatter_error:
  "parseFrontmatter unmarshal content = Inl err \<longleftrightarrow>
     (err = NoFrontmatter \<and> \<not> prefix ''---'' content)
   \<or> (err = FrontmatterNotClosed \<and> prefix ''---'' content \<and> Index (drop 3 content) ''---'' = None)"
  by (auto simp: parseFrontmatter_def Let_def split: option.splits)

lemma parseFrontmatter_ok:
  "(\<exists>fm body. parseFrontmatter unmarshal content = Inr (fm, body)) \<longleftrightarrow>
     prefix ''---'' content \<and> Index (drop 3 content) ''---'' \<noteq> None"
  by (auto simp: parseFrontmatter_def Let_def split: option.splits)

lemma parseFrontmatter_TitleList:
  assumes "parseFrontmatter unmarshal content = Inr (fm, body)"
  shows "fm_TitleList fm =
     (case titleListLiteral (take (the (Index (drop 3 content) ''---'')) (drop 3 content)) of
        None \<Rightarrow> []
      | Some arrayContent \<Rightarrow>
          (case unmarshal (cleanArrayToJSON arrayContent) of Some secs \<Rightarrow> secs | None \<Rightarrow> []))"
  using assms by (auto simp: parseFrontmatter_def Let_def split: option.splits if_splits)

text \<open>
  C7, as stated, fails: a document whose section-list literal the decoder rejects
  (\<open>[oops]\<close> is no JSON), and a document whose literal never closes its bracket (the
  decoder is not even called), both parse successfully, with an empty section list.
\<close>

theorem C7_malformed_section_list_parses:
  "ParseChapter rejectAll
     (fileOf ''---\<newline>id: 'ch1'\<newline>titleList: [oops]\<newline>---\<newline>Body'') ''ch1.mdx'' ''es''
   = Inr \<lparr>ch_ID = ''ch1'', ch_Order = 0, ch_Name = [], ch_Locale = ''es'', ch_TitleList = [],
          ch_Content = ''Body'', ch_FilePath = ''ch1.mdx''\<rparr>
   \<and> ParseChapter rejectAll
     (fileOf ''---\<newline>id: 'ch1'\<newline>titleList: [{name: 'A'\<newline>---\<newline>Body'') ''ch1.mdx'' ''es''
   = Inr \<lparr>ch_ID = ''ch1'', ch_Order = 0, ch_Name = ''A'', ch_Locale = ''es'', ch_TitleList = [],
          ch_Content = ''Body'', ch_FilePath = ''ch1.mdx''\<rparr>"
  by code_simp


text \<open>
  C7, amended: parsing a document either produces a chapter or fails; once the file is
  read it fails for exactly two reasons, each a parse error naming it: the text does not
  start with the front-matter delimiter, or no second delimiter follows. In every other
  case it produces a chapter, and a malformed section-list literal is no failure: the
  section list is what the decoder returns for the cleaned literal, and it is empty when
  the literal's bracket never closes or the decoder rejects it.
\<close>

theorem C7_parse_outcomes:
  "(case ParseChapter unmarshal readFile filePath locale of
      Inr ch \<Rightarrow> True
    | Inl err \<Rightarrow> err = ReadError filePath \<or> err = ParseError filePath NoFrontmatter
                 \<or> err = ParseError filePath FrontmatterNotClosed)
   \<and> (ParseChapter unmarshal readFile filePath locale = Inl (ReadError filePath)
        \<longleftrightarrow> readFile filePath = None)
   \<and> (\<forall>content. readFile filePath = Some content \<longrightarrow>
        (ParseChapter unmarshal readFile filePath locale = Inl (ParseError filePath NoFrontmatter)
           \<longleftrightarrow> \<not> prefix ''---'' content)
      \<and> (ParseChapter unmarshal readFile filePath locale
            = Inl (ParseError filePath FrontmatterNotClosed)
           \<longleftrightarrow> prefix ''---'' content \<and> Index (drop 3 content) ''---'' = None)
      \<and> ((\<exists>ch. ParseChapter unmarshal readFile filePath locale = Inr ch)
           \<longleftrightarrow> prefix ''---'' content \<and> Index (drop 3 content) ''---'' \<noteq> None)
      \<and> (\<forall>ch. ParseChapter unmarshal readFile filePath locale = Inr ch \<longrightarrow>
            ch_TitleList ch =
              (case titleListLiteral (take (the (Index (drop 3 content) ''---'')) (drop 3 content)) of
                 None \<Rightarrow> []
               | Some arrayContent \<Rightarrow>
                   (case unmarshal (cleanArrayToJSON arrayContent) of
                      Some secs \<Rightarrow> secs | None \<Rightarrow> []))))"
proof -
  have a: "(case ParseChapter unmarshal readFile filePath locale of
      Inr ch \<Rightarrow> True
    | Inl err \<Rightarrow> err = ReadError filePath \<or> err = ParseError filePath NoFrontmatter
                 \<or> err = ParseError filePath FrontmatterNotClosed)"
    by (auto simp: ParseChapter_def parseFrontmatter_def Let_def split: option.splits sum.splits)
  have b: "ParseChapter unmarshal readFile filePath locale = Inl (ReadError filePath)
        \<longleftrightarrow> readFile filePath = None"
    by (auto simp: ParseChapter_def split: option.splits sum.splits)
  have c: "(ParseChapter unmarshal readFile filePath locale = Inl (ParseError filePath NoFrontmatter)
           \<longleftrightarrow> \<not> prefix ''---'' content)
      \<and> (ParseChapter unmarshal readFile filePath locale
            = Inl (ParseError filePath FrontmatterNotClosed)
           \<longleftrightarrow> prefix ''---'' content \<and> Index (drop 3 content) ''---'' = None)
      \<and> ((\<exists>ch. ParseChapter unmarshal readFile filePath locale = Inr ch)
           \<longleftrightarrow> prefix ''---'' content \<and> Index (drop 3 content) ''---'' \<noteq> None)"
    if "readFile filePath = Some content" for content
    using that
    by (auto simp: ParseChapter_def parseFrontmatter_def Let_def split: option.splits sum.splits)
  have d: "ch_TitleList ch =
              (case titleListLiteral (take (the (Index (drop 3 content) ''---'')) (drop 3 content)) of
                 None \<Rightarrow> []
               | Some arrayContent \<Rightarrow>
                   (case unmarshal (cleanArrayToJSON arrayContent) of
                      Some secs \<Rightarrow> secs | None \<Rightarrow> []))"
    if "readFile filePath = Some content"
       "ParseChapter unmarshal readFile filePath locale = Inr ch" for content ch
  proof -
    from that obtain fm body where p: "parseFrontmatter unmarshal content = Inr (fm, body)"
      and ch: "ch_TitleList ch = fm_TitleList fm"
      by (auto simp: ParseChapter_def split: sum.splits)
    from parseFrontmatter_TitleList [OF p] ch show ?thesis by simp
  qed
  from a b c d show ?thesis by blast
qed

theorem C7_parse_outcomes_witness:
  "fileOf ''---\<newline>id: 'ch1'\<newline>order: 2\<newline>titleList: [{name: 'A', tagId: 'a'}]\<newline>---\<newline>Body''
     ''ch1.mdx''
     = Some ''---\<newline>id: 'ch1'\<newline>order: 2\<newline>titleList: [{name: 'A', tagId: 'a'}]\<newline>---\<newline>Body''
   \<and> ParseChapter decodeSample
       (fileOf ''---\<newline>id: 'ch1'\<newline>order: 2\<newline>titleList: [{name: 'A', tagId: 'a'}]\<newline>---\<newline>Body'')
       ''ch1.mdx'' ''es''
     = Inr \<lparr>ch_ID = ''ch1'', ch_Order = 2, ch_Name = ''A'', ch_Locale = ''es'',
            ch_TitleList = [\<lparr>sec_Name = ''A'', sec_TagID = ''a''\<rparr>],
            ch_Content = ''Body'', ch_FilePath = ''ch1.mdx''\<rparr>
   \<and> prefix ''---'' ''---\<newline>id: 'ch1'\<newline>order: 2\<newline>titleList: [{name: 'A', tagId: 'a'}]\<newline>---\<newline>Body''
   \<and> ParseChapter decodeSample (fileOf ''no front matter'') ''ch2.mdx'' ''es''
     = Inl (ParseError ''ch2.mdx'' NoFrontmatter)"
proof -
  have a: "fileOf ''---\<newline>id: 'ch1'\<newline>order: 2\<newline>titleList: [{name: 'A', tagId: 'a'}]\<newline>---\<newline>Body''
     ''ch1.mdx''
     = Some ''---\<newline>id: 'ch1'\<newline>order: 2\<newline>titleList: [{name: 'A', tagId: 'a'}]\<newline>---\<newline>Body''"
    by (simp add: fileOf_def)
  have b: "ParseChapter decodeSample
       (fileOf ''---\<newline>id: 'ch1'\<newline>order: 2\<newline>titleList: [{name: 'A', tagId: 'a'}]\<newline>---\<newline>Body'')
       ''ch1.mdx'' ''es''
     = Inr \<lparr>ch_ID = ''ch1'', ch_Order = 2, ch_Name = ''A'', ch_Locale = ''es'',
            ch_TitleList = [\<lparr>sec_Name = ''A'', sec_TagID = ''a''\<rparr>],
            ch_Content = ''Body'', ch_FilePath = ''ch1.mdx''\<rparr>"
    by code_simp
  have c: "fileOf ''no front matter'' ''ch2.mdx'' = Some ''no front matter''"
    by (simp add: fileOf_def)
  have d: "\<not> prefix ''---'' ''no front matter''" by simp
  from C7_parse_outcomes [where unmarshal = decodeSample and filePath = "''ch1.mdx''" and
      readFile = "fileOf ''---\<newline>id: 'ch1'\<newline>order: 2\<newline>titleList: [{name: 'A', tagId: 'a'}]\<newline>---\<newline>Body''"]
    a b
  have e: "prefix ''---'' ''---\<newline>id: 'ch1'\<newline>order: 2\<newline>titleList: [{name: 'A', tagId: 'a'}]\<newline>---\<newline>Body''"
    by blast
  from C7_parse_outcomes [where unmarshal = decodeSample and filePath = "''ch2.mdx''" and
      readFile = "fileOf ''no front matter''"] c d
  have f: "ParseChapter decodeSample (fileOf ''no front matter'') ''ch2.mdx'' ''es''
     = Inl (ParseError ''ch2.mdx'' NoFrontmatter)"
    by blast
  from a b e f show ?thesis by simp
qed

section \<open>Properties of the index build\<close>

text \<open>Reading a decimal numeral back, to show that \<open>itoa\<close> is injective.\<close>

lemma digitVal_digit: "d < 10 \<Longrightarrow> digitVal (digit d) = d"
proof -
  have "\<forall>d \<in> set [0 ..< 10]. digitVal (digit d) = d" by code_simp
  then show "d < 10 \<Longrightarrow> digitVal (digit d) = d" by simp
qed

lemma atoi_itoa: "atoi (itoa n) = n"
proof (induction n rule: itoa.induct)
  case (1 n)
  show ?case
  proof (cases "n < 10")
    case True
    then show ?thesis by (subst itoa.simps) (simp add: atoi_def digitVal_digit)
  next
    case False
    with 1 have "atoi (itoa (n div 10)) = n div 10" by simp
    with False show ?thesis
      by (subst itoa.simps) (simp add: atoi_def digitVal_digit)
  qed
qed

lemma itoa_1: "itoa 1 = ''1''" "itoa (Suc 0) = ''1''"
  by code_simp+

lemma itoa_inj: "itoa m = itoa n \<Longrightarrow> m = n"
  by (metis atoi_itoa)

definition chunkName :: "nat \<Rightarrow> string" where
  "chunkName k = ''chunk_'' @ itoa k"

lemma chunkName_inj: "inj chunkName"
  by (auto simp: inj_def chunkName_def dest: itoa_inj)

text \<open>
  \<open>numbered n cs n'\<close>: the chunks \<open>cs\<close> carry the identifiers \<open>n + 1\<close> to \<open>n'\<close>, in order.
\<close>

definition numbered :: "nat \<Rightarrow> Chunk list \<Rightarrow> nat \<Rightarrow> bool" where
  "numbered n cs n' = (n' = n + length cs \<and> map ID cs = map chunkName [Suc n ..< Suc n'])"

lemma numbered_Nil: "numbered n [] n"
  by (simp add: numbered_def)

lemma numbered_append:
  "numbered n a m \<Longrightarrow> numbered m b k \<Longrightarrow> numbered n (a @ b) k"
proof -
  assume a: "numbered n a m" and b: "numbered m b k"
  have "[Suc n ..< Suc n + length a + length b] = [Suc n ..< Suc n + length a] @ [Suc n + length a ..< Suc n + length a + length b]"
    by (rule upt_add_eq_append) simp
  with a b show ?thesis by (simp add: numbered_def)
qed

lemma numbered_Cons:
  "ID c = chunkName (Suc n) \<Longrightarrow> numbered (Suc n) cs k \<Longrightarrow> numbered n (c # cs) k"
  unfolding numbered_def by (auto simp: upt_conv_Cons)

lemma partLoop_numbered:
  "partLoop cid cn loc sn np j cs n = (out, n') \<Longrightarrow> numbered n out n'"
proof (induction cs arbitrary: j n out n')
  case Nil then show ?case by (simp add: numbered_Nil)
next
  case (Cons c cs)
  then show ?case
    by (auto simp: Let_def mkChunk_def chunkName_def split: prod.splits intro!: numbered_Cons)
qed

lemma headerLoop_numbered:
  "headerLoop cid cn loc secs i hs n = (out, n') \<Longrightarrow> numbered n out n'"
proof (induction hs arbitrary: i n out n')
  case Nil then show ?case by (simp add: numbered_Nil)
next
  case (Cons h hs)
  then show ?case
    by (auto simp: Let_def split: prod.splits if_splits
        intro: numbered_append partLoop_numbered)
qed

lemma splitIntoChunks_numbered:
  "splitIntoChunks content cid cn loc n = (out, n') \<Longrightarrow> numbered n out n'"
proof -
  assume a: "splitIntoChunks content cid cn loc n = (out, n')"
  obtain sections headers where sp: "splitSections True [] content = (sections, headers)"
    by (cases "splitSections True [] content")
  show ?thesis
  proof (cases "length sections > 0 \<and> TrimSpace (sections ! 0) \<noteq> []")
    case True
    obtain rest k where h: "headerLoop cid cn loc sections 0 headers (n + 1) = (rest, k)"
      by (cases "headerLoop cid cn loc sections 0 headers (n + 1)")
    from a sp True h have "out = mkChunk (n + 1) cid cn ''Introduction''
        (truncateContent (TrimSpace (sections ! 0)) 1000) loc # rest" and "n' = k"
      by (auto simp: splitIntoChunks_def)
    moreover have "numbered (Suc n) rest k" using headerLoop_numbered h by simp
    ultimately show ?thesis
      by (auto intro!: numbered_Cons simp: mkChunk_def chunkName_def)
  next
    case False
    obtain rest k where h: "headerLoop cid cn loc sections 0 headers n = (rest, k)"
      by (cases "headerLoop cid cn loc sections 0 headers n")
    from a sp False h have "out = rest" and "n' = k"
      by (auto simp: splitIntoChunks_def)
    then show ?thesis using headerLoop_numbered h by simp
  qed
qed

lemma chapterLoop_numbered:
  "chapterLoop chs loc n = (out, n') \<Longrightarrow> numbered n out n'"
proof (induction chs arbitrary: n out n')
  case Nil then show ?case by (simp add: numbered_Nil)
next
  case (Cons c chs)
  then show ?case
    by (auto simp: Let_def split: prod.splits intro: numbered_append splitIntoChunks_numbered)
qed

lemma localeLoop_numbered:
  "localeLoop LC ls n = Inr (out, n') \<Longrightarrow> numbered n out n'"
proof (induction ls arbitrary: n out n')
  case Nil then show ?case by (simp add: numbered_Nil)
next
  case (Cons l ls)
  then show ?case
    by (auto simp: Let_def split: prod.splits sum.splits intro: numbered_append chapterLoop_numbered)
qed

lemma numbered_distinct: "numbered n cs n' \<Longrightarrow> distinct (map ID cs)"
  unfolding numbered_def using chunkName_inj
  by (simp add: distinct_map inj_on_def inj_def)

definition sampleListing :: "string \<Rightarrow> error + Chapter list" where
  "sampleListing locale =
     (if locale = ''es''
      then Inr [\<lparr>ch_ID = ''intro'', ch_Order = 1, ch_Name = ''Intro'', ch_Locale = ''es'',
                 ch_TitleList = [], ch_Content = ''hola'', ch_FilePath = ''es/intro.mdx''\<rparr>]
      else Inl (ReadError locale))"

definition okClient :: "nat EmbeddingClient" where
  "okClient =
     \<lparr>Embed = (\<lambda>n t. (Inr [1], Suc n)),
      EmbedBatch = (\<lambda>n ts. (Inr (map (\<lambda>t. [1]) ts), Suc n))\<rparr>"

text \<open>
  C3, as stated, fails: the handler sets \<open>chunkID := 0\<close> on every invocation, so two
  builds in one process number their chunks alike. After two builds of the same locale
  the store holds two chunks with the identifier \<open>chunk_1\<close>.
\<close>

theorem C3_two_builds_share_identifiers:
  "(let r1 = handleBuildSemanticIndex sampleListing okClient 0 (Some NewSemanticEngine) ''es'';
        r2 = handleBuildSemanticIndex sampleListing okClient (snd (snd r1)) (fst (snd r1)) ''es''
    in map ID (chunks (store (the (fst (snd r2)))))) = [''chunk_1'', ''chunk_1'']"
  by code_simp

text \<open>
  C3, amended: chunk identifiers come from one counter shared across all documents and
  locales of one index build. The build's k-th chunk has the identifier \<open>chunk_k\<close>, so
  within one build every chunk's number is the previous chunk's plus one and the
  identifiers are pairwise distinct. The counter starts at 0 in every build: whenever a
  build produces a chunk, its first chunk is \<open>chunk_1\<close>, so identifiers are unique within
  a build, not across builds.
\<close>

theorem C3_identifiers_within_one_build:
  assumes "buildAllChunks ListChapters localeParam = Inr (cs, n)"
  shows "map ID cs = map (\<lambda>k. ''chunk_'' @ itoa k) [1 ..< Suc (length cs)]
       \<and> n = length cs
       \<and> distinct (map ID cs)
       \<and> (cs \<noteq> [] \<longrightarrow> ID (hd cs) = ''chunk_1'')"
proof -
  from assms have nb: "numbered 0 cs n"
    by (simp add: buildAllChunks_def localeLoop_numbered)
  then have ids: "map ID cs = map (\<lambda>k. ''chunk_'' @ itoa k) [1 ..< Suc (length cs)]"
    and n: "n = length cs"
    by (simp_all add: numbered_def chunkName_def [abs_def])
  have "ID (hd cs) = ''chunk_1''" if "cs \<noteq> []"
  proof -
    from that have "[1 ..< Suc (length cs)] = 1 # [2 ..< Suc (length cs)]"
      by (subst upt_rec) (simp add: numeral_2_eq_2)
    with ids have "hd (map ID cs) = ''chunk_'' @ itoa 1"
      by simp
    with that show ?thesis by (simp add: hd_map itoa_1)
  qed
  with ids n numbered_distinct [OF nb] show ?thesis by simp
qed

theorem C3_identifiers_within_one_build_witness:
  "buildAllChunks sampleListing ''es''
     = Inr ([mkChunk 1 ''intro'' ''Intro'' ''Introduction'' ''hola'' ''es''], 1)
   \<and> map ID [mkChunk 1 ''intro'' ''Intro'' ''Introduction'' ''hola'' ''es''] = [''chunk_1'']"
proof -
  have h: "buildAllChunks sampleListing ''es''
     = Inr ([mkChunk 1 ''intro'' ''Intro'' ''Introduction'' ''hola'' ''es''], 1)"
    by code_simp
  from C3_identifiers_within_one_build [OF h] h show ?thesis
    by (simp add: mkChunk_def itoa_1)
qed

section \<open>Properties of the chunker\<close>

lemma paragraphLoop_fragments:
  assumes "f \<in> set (paragraphLoop m cur ps)"
      and "cur = [] \<or> cur \<in> P \<or> (\<exists>b p. cur = b @ ''\<newline>\<newline>'' @ p \<and> length b + length p \<le> m)"
      and "set ps \<subseteq> P"
  shows "(\<exists>p\<in>P. f = TrimSpace p)
       \<or> (\<exists>b p. f = TrimSpace (b @ ''\<newline>\<newline>'' @ p) \<and> length b + length p \<le> m)"
  using assms
proof (induction ps arbitrary: cur)
  case Nil
  then show ?case by (auto split: if_splits)
next
  case (Cons q ps)
  show ?case
  proof (cases "length cur + length q > m \<and> cur \<noteq> []")
    case True
    with Cons.prems(1) have "f = TrimSpace cur \<or> f \<in> set (paragraphLoop m q ps)" by auto
    then show ?thesis
    proof
      assume "f = TrimSpace cur"
      with True Cons.prems(2) show ?thesis by auto
    next
      assume "f \<in> set (paragraphLoop m q ps)"
      from Cons.IH [OF this] Cons.prems(3) show ?thesis by auto
    qed
  next
    case False
    with Cons.prems(1) have f: "f \<in> set (paragraphLoop m
        ((if cur \<noteq> [] then cur @ ''\<newline>\<newline>'' else cur) @ q) ps)" by auto
    show ?thesis
    proof (cases "cur = []")
      case True
      with f have "f \<in> set (paragraphLoop m q ps)" by simp
      from Cons.IH [OF this] Cons.prems(3) show ?thesis by auto
    next
      case nonempty: False
      with False have le: "length cur + length q \<le> m" by simp
      from f nonempty have f': "f \<in> set (paragraphLoop m (cur @ ''\<newline>\<newline>'' @ q) ps)" by simp
      have "\<exists>b p. cur @ ''\<newline>\<newline>'' @ q = b @ ''\<newline>\<newline>'' @ p \<and> length b + length p \<le> m"
        using le by blast
      then show ?thesis using Cons.IH [OF f'] Cons.prems(3) by simp
    qed
  qed
qed

lemma splitLongContent_fragments:
  assumes "f \<in> set (splitLongContent content m)"
  shows "length f \<le> m
       \<or> (\<exists>p\<in>set (Split content ''\<newline>\<newline>''). f = TrimSpace p)
       \<or> (\<exists>b p. f = TrimSpace (b @ ''\<newline>\<newline>'' @ p) \<and> length b + length p \<le> m)"
proof (cases "length content \<le> m")
  case True
  with assms show ?thesis by (simp add: splitLongContent_def)
next
  case False
  with assms have "f \<in> set (paragraphLoop m [] (Split content ''\<newline>\<newline>''))"
    by (simp add: splitLongContent_def)
  from paragraphLoop_fragments [OF this, of "set (Split content ''\<newline>\<newline>'')"]
  show ?thesis by auto
qed

lemma partLoop_Content:
  "c \<in> set (fst (partLoop cid cn loc sn np j cs n)) \<Longrightarrow> Content c \<in> set cs"
proof (induction cs arbitrary: j n)
  case Nil then show ?case by simp
next
  case (Cons a cs)
  obtain rest k where r: "partLoop cid cn loc sn np (j + 1) cs (n + 1) = (rest, k)"
    by (cases "partLoop cid cn loc sn np (j + 1) cs (n + 1)")
  with Cons.prems have "Content c = a \<or> c \<in> set rest"
    by (auto simp: Let_def mkChunk_def)
  then show ?case using Cons.IH [of "j + 1" "n + 1"] r by auto
qed

lemma headerLoop_Content:
  "c \<in> set (fst (headerLoop cid cn loc secs i hs n)) \<Longrightarrow>
     \<exists>k. i < k \<and> k < length secs \<and> TrimSpace (secs ! k) \<noteq> []
       \<and> Content c \<in> set (splitLongContent (TrimSpace (secs ! k)) 1000)"
proof (induction hs arbitrary: i n)
  case Nil then show ?case by simp
next
  case (Cons h hs)
  show ?case
  proof (cases "(if i + 1 < length secs then TrimSpace (secs ! (i + 1)) else []) = []")
    case True
    with Cons.prems have "c \<in> set (fst (headerLoop cid cn loc secs (i + 1) hs n))"
      by (simp add: Let_def)
    from Cons.IH [OF this] obtain k where "i + 1 < k" "k < length secs" "TrimSpace (secs ! k) \<noteq> []"
      "Content c \<in> set (splitLongContent (TrimSpace (secs ! k)) 1000)" by blast
    then show ?thesis by (intro exI [of _ k]) simp
  next
    case False
    then have k: "i + 1 < length secs" "TrimSpace (secs ! (i + 1)) \<noteq> []"
      by (auto split: if_splits)
    obtain cs n1 where p: "partLoop cid cn loc h
        (length (splitLongContent (TrimSpace (secs ! (i + 1))) 1000)) 0
        (splitLongContent (TrimSpace (secs ! (i + 1))) 1000) n = (cs, n1)"
      by (cases "partLoop cid cn loc h
        (length (splitLongContent (TrimSpace (secs ! (i + 1))) 1000)) 0
        (splitLongContent (TrimSpace (secs ! (i + 1))) 1000) n")
    from Cons.prems k p have "c \<in> set cs \<or> c \<in> set (fst (headerLoop cid cn loc secs (i + 1) hs n1))"
      by (auto simp: Let_def split: prod.splits)
    then show ?thesis
    proof
      assume "c \<in> set cs"
      with p have "Content c \<in> set (splitLongContent (TrimSpace (secs ! (i + 1))) 1000)"
        using partLoop_Content by (metis fst_conv)
      with k show ?thesis by (intro exI [of _ "i + 1"]) simp
    next
      assume "c \<in> set (fst (headerLoop cid cn loc secs (i + 1) hs n1))"
      from Cons.IH [OF this] obtain k where "i + 1 < k" "k < length secs"
        "TrimSpace (secs ! k) \<noteq> []"
        "Content c \<in> set (splitLongContent (TrimSpace (secs ! k)) 1000)" by blast
      then show ?thesis by (intro exI [of _ k]) simp
    qed
  qed
qed

lemma splitIntoChunks_Content:
  assumes "c \<in> set (fst (splitIntoChunks content cid cn loc n))"
  shows "(fst (splitSections True [] content) \<noteq> []
          \<and> Section c = ''Introduction''
          \<and> Content c = truncateContent (TrimSpace (hd (fst (splitSections True [] content)))) 1000)
       \<or> (\<exists>sec\<in>set (tl (fst (splitSections True [] content))).
            Content c \<in> set (splitLongContent (TrimSpace sec) 1000))"
proof -
  obtain sections headers where sp: "splitSections True [] content = (sections, headers)"
    by (cases "splitSections True [] content")
  define n1 where "n1 = (if length sections > 0 \<and> TrimSpace (sections ! 0) \<noteq> [] then n + 1 else n)"
  have "c \<in> set (if length sections > 0 \<and> TrimSpace (sections ! 0) \<noteq> []
             then [mkChunk (n + 1) cid cn ''Introduction''
                      (truncateContent (TrimSpace (sections ! 0)) 1000) loc] else [])
      \<or> c \<in> set (fst (headerLoop cid cn loc sections 0 headers n1))"
    using assms sp unfolding splitIntoChunks_def n1_def
    by (auto simp: Let_def split: prod.splits if_splits)
  then show ?thesis
  proof
    assume "c \<in> set (if length sections > 0 \<and> TrimSpace (sections ! 0) \<noteq> []
             then [mkChunk (n + 1) cid cn ''Introduction''
                      (truncateContent (TrimSpace (sections ! 0)) 1000) loc] else [])"
    then show ?thesis using sp
      by (auto simp: mkChunk_def hd_conv_nth split: if_splits)
  next
    assume "c \<in> set (fst (headerLoop cid cn loc sections 0 headers n1))"
    from headerLoop_Content [OF this] obtain k where
      k: "0 < k" "k < length sections"
         "Content c \<in> set (splitLongContent (TrimSpace (sections ! k)) 1000)" by blast
    then have "sections ! k \<in> set (tl sections)"
      by (cases sections) auto
    with k sp show ?thesis by auto
  qed
qed

lemma truncateContent_length:
  "length (truncateContent s m) \<le> m + 3"
  "length s \<le> m \<Longrightarrow> truncateContent s m = s"
  "length s > m \<Longrightarrow> truncateContent s m = take m s @ ''...'' \<and> length (truncateContent s m) = m + 3"
  by (auto simp: truncateContent_def)

lemma itoa_2: "itoa 2 = ''2''" "itoa (Suc (Suc 0)) = ''2''"
  by code_simp+

lemma plain_x: "plain (CHR ''x'')" "plain (CHR ''y'')"
  by (simp_all add: plain_def byte_def asciiSpace_def)

text \<open>
  C1, as stated, fails: a section of two paragraphs, the first 1001 bytes long, becomes
  the fragments "A (part 1)" of 1001 bytes and "A (part 2)". The splitter cuts at
  paragraph boundaries only and never cuts a paragraph.
\<close>

theorem C1_long_paragraph_exceeds_bound:
  "map (\<lambda>c. (Section c, length (Content c)))
     (fst (splitIntoChunks (''## A\<newline>'' @ replicate 1001 (CHR ''x'') @ ''\<newline>\<newline>y'')
        ''ch'' ''Chapter'' ''es'' 0))
   = [(''A (part 1)'', 1001), (''A (part 2)'', 1)]"
proof -
  define xs where "xs = replicate 1001 (CHR ''x'')"
  have len: "length xs = 1001" and nl: "NL \<notin> set xs" and hash: "CHR ''#'' \<notin> set xs"
    by (simp_all add: xs_def)
  have ne: "xs \<noteq> []" using len by auto
  have hd_last: "hd xs = CHR ''x''" "last xs = CHR ''x''"
    by (simp_all add: xs_def hd_replicate last_replicate)
  have pat: "sectionPatternAt (''## A\<newline>'' @ xs @ ''\<newline>\<newline>y'') = Some (''A'', 4)"
    by (simp add: sectionPatternAt_def reSpace_def)
  have sp: "splitSections True [] (''## A\<newline>'' @ xs @ ''\<newline>\<newline>y'')
      = ([[], NL # xs @ ''\<newline>\<newline>y''], [''A''])"
    using pat hash by (simp add: splitSections_no_hash)
  have t0: "TrimSpace [] = []"
    by (simp add: TrimSpace_def trimLeft.simps trimRight.simps leadingSpace_def trailingSpace_def)
  have t1: "TrimSpace (NL # xs @ ''\<newline>\<newline>y'') = xs @ ''\<newline>\<newline>y''"
  proof -
    obtain r where r: "xs = CHR ''x'' # r" using ne hd_last by (cases xs) auto
    have "trimLeft (NL # xs @ ''\<newline>\<newline>y'') = xs @ ''\<newline>\<newline>y''"
      by (simp add: trimLeft_asciiSpace asciiSpace_def r trimLeft_plain plain_x)
    moreover have "trimRight ((xs @ ''\<newline>\<newline>'') @ ''y'') = (xs @ ''\<newline>\<newline>'') @ ''y''"
      by (rule trimRight_plain) (rule plain_x)
    ultimately show ?thesis by (simp add: TrimSpace_def)
  qed
  have t2: "TrimSpace xs = xs" "TrimSpace ''y'' = ''y''"
    using ne hd_last by (simp_all add: TrimSpace_plain plain_x)
  have sl: "splitLongContent (xs @ ''\<newline>\<newline>y'') 1000 = [xs, ''y'']"
    using Split_two_paragraphs [of xs "''y''"] nl len t2 ne
    by (simp add: splitLongContent_def)
  show ?thesis
    unfolding xs_def [symmetric] splitIntoChunks_def sp
    by (simp add: t0 t1 sl Let_def mkChunk_def len itoa_1 itoa_2)
qed

text \<open>
  C1, amended: for every document body, every chunk's content is of one of four kinds.
  (1) It is at most 1000 bytes long: the Introduction chunk of a preamble that fits, and
  the single chunk of a section whose trimmed text fits. (2) It is the Introduction
  chunk of a longer preamble: exactly the first 1000 bytes of the trimmed preamble and
  the three-byte ellipsis, 1003 bytes. (3) It is one whole paragraph of its section,
  trimmed: the splitter cuts only at blank-line paragraph boundaries and never inside a
  paragraph, so a paragraph longer than the maximum is a fragment longer than the
  maximum. (4) It joins a buffer and the paragraph added to it last, which the splitter
  added because their two lengths together did not exceed 1000.
\<close>

theorem C1_chunk_content:
  assumes "c \<in> set (fst (splitIntoChunks content chapterID chapterName locale idCounter))"
  shows "length (Content c) \<le> 1000
       \<or> (Section c = ''Introduction''
          \<and> Content c = take 1000 (TrimSpace (hd (fst (splitSections True [] content)))) @ ''...''
          \<and> length (Content c) = 1003)
       \<or> (\<exists>sec\<in>set (tl (fst (splitSections True [] content))).
             \<exists>p\<in>set (Split (TrimSpace sec) ''\<newline>\<newline>''). Content c = TrimSpace p)
       \<or> (\<exists>b p. Content c = TrimSpace (b @ ''\<newline>\<newline>'' @ p) \<and> length b + length p \<le> 1000)"
proof -
  from splitIntoChunks_Content [OF assms] show ?thesis
  proof (elim disjE conjE bexE)
    assume a: "Section c = ''Introduction''"
      "Content c = truncateContent (TrimSpace (hd (fst (splitSections True [] content)))) 1000"
    show ?thesis
    proof (cases "length (TrimSpace (hd (fst (splitSections True [] content)))) \<le> 1000")
      case True with a show ?thesis by (simp add: truncateContent_length)
    next
      case False with a show ?thesis by (simp add: truncateContent_def)
    qed
  next
    fix sec assume s: "sec \<in> set (tl (fst (splitSections True [] content)))"
      "Content c \<in> set (splitLongContent (TrimSpace sec) 1000)"
    from splitLongContent_fragments [OF s(2)] s(1) show ?thesis by blast
  qed
qed

definition sampleBody :: string where
  "sampleBody = ''Intro text\<newline>## Ports\<newline>A port is an interface.\<newline>''"

theorem C1_chunk_content_witness:
  "mkChunk 2 ''ch'' ''Chapter'' ''Ports'' ''A port is an interface.'' ''es''
     \<in> set (fst (splitIntoChunks sampleBody ''ch'' ''Chapter'' ''es'' 0))
   \<and> length (Content (mkChunk 2 ''ch'' ''Chapter'' ''Ports'' ''A port is an interface.'' ''es''))
       \<le> 1000"
proof -
  have "fst (splitIntoChunks sampleBody ''ch'' ''Chapter'' ''es'' 0)
    = [mkChunk 1 ''ch'' ''Chapter'' ''Introduction'' ''Intro text'' ''es'',
       mkChunk 2 ''ch'' ''Chapter'' ''Ports'' ''A port is an interface.'' ''es'']"
    by code_simp
  then have h: "mkChunk 2 ''ch'' ''Chapter'' ''Ports'' ''A port is an interface.'' ''es''
     \<in> set (fst (splitIntoChunks sampleBody ''ch'' ''Chapter'' ''es'' 0))"
    by simp
  from C1_chunk_content [OF h] h show ?thesis by (simp add: mkChunk_def)
qed

section \<open>Properties of the semantic engine\<close>


lemma IndexChunks_success:
  "fst (IndexChunks cl s e cs) = None \<Longrightarrow>
     fst (snd (IndexChunks cl s e cs)) =
       e\<lparr>store := AddBatch (store e) (snd (snd (snd (IndexChunks cl s e cs)))),
         isIndexed := True\<rparr>"
  by (auto simp: IndexChunks_def split: prod.splits option.splits)

lemma IndexChunks_isIndexed:
  "isIndexed (fst (snd (IndexChunks cl s e cs))) =
     (isIndexed e \<or> fst (IndexChunks cl s e cs) = None)"
  by (auto simp: IndexChunks_def split: prod.splits option.splits)

text \<open>
  A client for the examples: its state counts the calls made; the first call succeeds
  with the vector \<open>[1]\<close> for every text, every later call fails.
\<close>

definition failingClient :: "nat EmbeddingClient" where
  "failingClient =
     \<lparr>Embed = (\<lambda>n t. (if n = 0 then Inr [1] else Inl (ProviderError ''down''), Suc n)),
      EmbedBatch = (\<lambda>n ts. (if n = 0 then Inr (map (\<lambda>t. [1]) ts)
                              else Inl (ProviderError ''down''), Suc n))\<rparr>"

definition sampleChunk :: Chunk where
  "sampleChunk =
     \<lparr>ID = ''chunk_1'', ChapterID = ''ch'', ChapterName = ''Chapter'', Section = ''S'',
      Content = ''text'', Embedding = [], Locale = ''es''\<rparr>"




text \<open>
  C9: semantic search fails with the not-indexed error whenever the indexed flag is
  false, without calling the client; when the flag is true it embeds the query, passes a
  client error on, and otherwise returns what the vector store's search returns for the
  query vector. The flag is false in a new engine, and after a call of \<open>IndexChunks\<close>
  it is true exactly when it was true before or the call succeeded.
\<close>

theorem C9_search_needs_index:
  "(\<not> isIndexed e \<longrightarrow>
      SemanticEngine_Search cl s e query locale topK = (Inl NotIndexedError, s))
   \<and> (isIndexed e \<longrightarrow>
      SemanticEngine_Search cl s e query locale topK =
        (case Embed cl s query of
           (Inl err, s') \<Rightarrow> (Inl err, s')
         | (Inr queryEmbedding, s') \<Rightarrow>
             (VectorStore_Search (store e) queryEmbedding locale topK, s')))
   \<and> \<not> isIndexed NewSemanticEngine
   \<and> isIndexed (fst (snd (IndexChunks cl s e cs))) =
       (isIndexed e \<or> fst (IndexChunks cl s e cs) = None)"
  by (simp add: SemanticEngine_Search_def NewSemanticEngine_def IndexChunks_isIndexed)

theorem C9_search_needs_index_witness:
  "SemanticEngine_Search failingClient 0 NewSemanticEngine ''ports'' ''es'' 5
     = (Inl NotIndexedError, 0)
   \<and> SemanticEngine_Search failingClient 0
       (fst (snd (IndexChunks failingClient 0 NewSemanticEngine [sampleChunk])))
       ''ports'' ''es'' 5
     = (VectorStore_Search
          (store (fst (snd (IndexChunks failingClient 0 NewSemanticEngine [sampleChunk]))))
          [1] ''es'' 5, 1)
   \<and> SemanticEngine_Search failingClient 1
       (fst (snd (IndexChunks failingClient 0 NewSemanticEngine [sampleChunk])))
       ''ports'' ''es'' 5
     = (Inl (ProviderError ''down''), 2)"
proof -
  have a: "\<not> isIndexed NewSemanticEngine"
    by (simp add: NewSemanticEngine_def)
  have b: "isIndexed (fst (snd (IndexChunks failingClient 0 NewSemanticEngine [sampleChunk])))"
    by code_simp
  have c: "Embed failingClient 0 ''ports'' = (Inr [1], 1)"
    "Embed failingClient 1 ''ports'' = (Inl (ProviderError ''down''), 2)"
    by (simp_all add: failingClient_def)
  show ?thesis
    using C9_search_needs_index [of NewSemanticEngine failingClient 0 "''ports''" "''es''" 5]
      C9_search_needs_index [of "fst (snd (IndexChunks failingClient 0 NewSemanticEngine [sampleChunk]))"
        failingClient 0 "''ports''" "''es''" 5]
      C9_search_needs_index [of "fst (snd (IndexChunks failingClient 0 NewSemanticEngine [sampleChunk]))"
        failingClient 1 "''ports''" "''es''" 5]
      a b c
    by simp
qed

text \<open>
  C4 at a negative \<open>topK\<close>: the search does not return an empty result, it panics, even
  on an empty store.
\<close>

theorem C4_negative_topK_panics:
  "VectorStore_Search NewVectorStore [1] ''es'' (- 1) = Inl (Panic ''slice bounds out of range'')"
  by (simp add: VectorStore_Search_def NewVectorStore_def matching_def sortScored_def)

end
